theory Spec2Isabelle
  imports Complex_Main "HOL-Library.Multiset" "HOL-Library.Product_Lexorder"
begin

section \<open>Data model\<close>

text \<open>
  A JavaScript \<^verbatim>\<open>number\<close> as far as the product actions use it: the actions only
  compare numbers (\<^verbatim>\<open>===\<close>, \<^verbatim>\<open>!==\<close>) and hand them to the store. \<open>NaN\<close> is what
  \<^verbatim>\<open>Number(s)\<close> gives for a string that is no numeral; every other value is carried as a
  rational (the two infinities are left out).
\<close>

datatype jsnum = NaN | Num rat

text \<open>\<^verbatim>\<open>a === b\<close> on numbers: \<open>NaN\<close> equals nothing, itself included.\<close>

definition strict_eq :: "jsnum \<Rightarrow> jsnum \<Rightarrow> bool" where
  "strict_eq a b = (a \<noteq> NaN \<and> b \<noteq> NaN \<and> a = b)"

text \<open>
  \<^verbatim>\<open>eq(column, value)\<close> inside a \<^verbatim>\<open>WHERE\<close> clause is evaluated by the store, where
  a stored \<open>NaN\<close> compares equal to a \<open>NaN\<close> parameter.
\<close>

definition sql_eq :: "jsnum \<Rightarrow> jsnum \<Rightarrow> bool" where
  "sql_eq a b = (a = b)"

text \<open>Dates (\<^verbatim>\<open>CURRENT_DATE\<close>, \<^verbatim>\<open>createdAt\<close>) are day numbers.\<close>

type_synonym date = nat

text \<open>A row of table \<^verbatim>\<open>variants\<close> (\<^verbatim>\<open>TDBVariant\<close>).\<close>

record TDBVariant =
  v_id :: nat
  v_productId :: nat
  v_price :: jsnum
  v_quantity :: jsnum
  v_size :: jsnum
  v_deletedAt :: "date option"

text \<open>A row of table \<^verbatim>\<open>products\<close> (\<^verbatim>\<open>TDBProduct\<close>).\<close>

record TDBProduct =
  p_id :: nat
  p_title :: string
  p_description :: string
  p_image :: string
  p_deletedAt :: "date option"
  p_createdAt :: date

text \<open>A row of table \<^verbatim>\<open>purchaseItems\<close>, as far as the sale aggregation reads it.\<close>

record TDBPurchaseItem =
  pi_id :: nat
  pi_variantId :: nat
  pi_quantity :: rat
  pi_price :: rat

text \<open>
  A variant as the caller submits it (\<^verbatim>\<open>TProduct["variants"][number]\<close>). The actions
  read each field only through \<^verbatim>\<open>Number(...)\<close>, so the record carries the coerced
  values: \<open>tv_size c\<close> is \<^verbatim>\<open>Number(c.size)\<close>, and so on.
\<close>

record TVariant =
  tv_size :: jsnum
  tv_price :: jsnum
  tv_quantity :: jsnum

text \<open>\<^verbatim>\<open>TProduct\<close>, the input of \<^verbatim>\<open>createProduct\<close>.\<close>

record TProduct =
  t_title :: string
  t_description :: string
  t_imageId :: string
  t_variants :: "TVariant list"

text \<open>\<^verbatim>\<open>Partial<TProduct>\<close>, the input of \<^verbatim>\<open>updateProduct\<close>: every field may be absent.\<close>

record PartialTProduct =
  pt_title :: "string option"
  pt_description :: "string option"
  pt_imageId :: "string option"
  pt_variants :: "TVariant list option"

text \<open>
  Modelled from the spec: the table declarations (\<^verbatim>\<open>@/db/schema\<close>) are not among the
  sources. The spec's data model gives the columns read above; identifiers are
  generated by the store, a new row has a null deletion timestamp, and a new product
  has the current date as its creation timestamp.

  The store: the three tables in the order a \<^verbatim>\<open>SELECT\<close> without \<^verbatim>\<open>ORDER BY\<close>
  returns their rows, and the two serial counters that generate identifiers.
\<close>

record db =
  products :: "TDBProduct list"
  variants :: "TDBVariant list"
  purchaseItems :: "TDBPurchaseItem list"
  next_product_id :: nat
  next_variant_id :: nat

section \<open>Variant reconciliation of \<^verbatim>\<open>updateProduct\<close>\<close>

text \<open>The three filters of \<^verbatim>\<open>updateProduct\<close>, lines 305 to 328.\<close>

definition removedVariants :: "TDBVariant list \<Rightarrow> TVariant list \<Rightarrow> TDBVariant list" where
  "removedVariants prevVariants currentVariants =
     filter (\<lambda>prevVariant.
        \<not> list_ex (\<lambda>currentVariant. strict_eq (tv_size currentVariant) (v_size prevVariant))
            currentVariants)
       prevVariants"

definition addedVariants :: "TDBVariant list \<Rightarrow> TVariant list \<Rightarrow> TVariant list" where
  "addedVariants prevVariants currentVariants =
     filter (\<lambda>currentVariant.
        \<not> list_ex (\<lambda>prevVariant. strict_eq (v_size prevVariant) (tv_size currentVariant))
            prevVariants)
       currentVariants"

definition isUpdated :: "TDBVariant list \<Rightarrow> TVariant \<Rightarrow> bool" where
  "isUpdated prevVariants currentVariant =
     (case find (\<lambda>prevVariant. strict_eq (v_size prevVariant) (tv_size currentVariant))
             prevVariants of
        None \<Rightarrow> False
      | Some prevVariant \<Rightarrow>
          \<not> strict_eq (v_price prevVariant) (tv_price currentVariant)
          \<or> \<not> strict_eq (v_quantity prevVariant) (tv_quantity currentVariant))"

definition updatedVariants :: "TDBVariant list \<Rightarrow> TVariant list \<Rightarrow> TVariant list" where
  "updatedVariants prevVariants currentVariants =
     filter (isUpdated prevVariants) currentVariants"

text \<open>
  The classification in the words of the specification, to compare with the filters
  above. A submitted variant matches a stored one when their sizes are equal as numbers.
\<close>

definition spec_matches :: "TDBVariant \<Rightarrow> TVariant \<Rightarrow> bool" where
  "spec_matches p c = strict_eq (v_size p) (tv_size c)"

definition spec_same_values :: "TDBVariant \<Rightarrow> TVariant \<Rightarrow> bool" where
  "spec_same_values p c =
     (strict_eq (v_price p) (tv_price c) \<and> strict_eq (v_quantity p) (tv_quantity c))"

definition spec_removed :: "TDBVariant list \<Rightarrow> TVariant list \<Rightarrow> TDBVariant list" where
  "spec_removed P D = filter (\<lambda>p. list_all (\<lambda>c. \<not> spec_matches p c) D) P"

definition spec_added :: "TDBVariant list \<Rightarrow> TVariant list \<Rightarrow> TVariant list" where
  "spec_added P D = filter (\<lambda>c. list_all (\<lambda>p. \<not> spec_matches p c) P) D"

definition spec_updated :: "TDBVariant list \<Rightarrow> TVariant list \<Rightarrow> TVariant list" where
  "spec_updated P D =
     filter (\<lambda>c. list_ex (\<lambda>p. spec_matches p c \<and> \<not> spec_same_values p c) P) D"

definition spec_unchanged :: "TDBVariant list \<Rightarrow> TVariant list \<Rightarrow> TVariant list" where
  "spec_unchanged P D =
     filter (\<lambda>c. list_ex (\<lambda>p. spec_matches p c \<and> spec_same_values p c) P) D"

text \<open>
  The previous rows are keyed by size: no two of them have sizes that are equal as
  numbers.
\<close>

fun keyed_by_size :: "TDBVariant list \<Rightarrow> bool" where
  "keyed_by_size [] = True"
| "keyed_by_size (p # ps) =
     (list_all (\<lambda>q. \<not> strict_eq (v_size p) (v_size q)) ps \<and> keyed_by_size ps)"

text \<open>Two lists of sizes share no size.\<close>

definition disjoint_sizes :: "jsnum list \<Rightarrow> jsnum list \<Rightarrow> bool" where
  "disjoint_sizes xs ys = list_all (\<lambda>x. list_all (\<lambda>y. \<not> strict_eq x y) ys) xs"

section \<open>Store statements\<close>

text \<open>
  What an action can throw inside its \<^verbatim>\<open>try\<close> block: the failed validation of
  \<^verbatim>\<open>createProduct\<close>, a failing cache call, and the two store statements that the
  source builds in a form that cannot run. \<open>NoValuesToSet\<close> is the query builder's error
  for \<^verbatim>\<open>update(products).set({})\<close>, an \<^verbatim>\<open>UPDATE\<close> without a column to set;
  \<open>StatementRejected\<close> is the failure of the search statement built from an absent
  query, \<^verbatim>\<open>SIMILARITY(title, ${undefined})\<close>.
\<close>

datatype thrown = ValidationFailure string | CacheFailure | NoValuesToSet | StatementRejected

text \<open>
  The other store statements are modelled as they read in the source and as
  succeeding: an outage of the store is outside the model. Page index and page size are
  natural numbers, and a product is named by the number its identifier denotes.
\<close>

text \<open>
  A JavaScript string as \<^verbatim>\<open>trim\<close> sees it: its UTF-16 code units. \<open>codeUnits\<close> gives
  the code units of an ASCII literal.
\<close>

type_synonym jsstring = "nat list"

definition codeUnits :: "string \<Rightarrow> jsstring" where
  "codeUnits s = map of_char s"

type_synonym TDBProductWithVariants = "TDBProduct \<times> TDBVariant list"

definition defaultLimit :: nat where
  "defaultLimit = 10"

text \<open>
  The join shared by the listing and the search: \<^verbatim>\<open>products\<close> inner-joined to
  \<^verbatim>\<open>variants\<close> on the product id, restricted to rows where both deletion timestamps
  are null, grouped by product id (the primary key: one group per product row) with the
  joined variants aggregated. An inner join has no group for a product without a joined
  variant.
\<close>

definition activeVariantsOf :: "db \<Rightarrow> nat \<Rightarrow> TDBVariant list" where
  "activeVariantsOf d pid =
     filter (\<lambda>v. v_productId v = pid \<and> v_deletedAt v = None) (variants d)"

definition joinActive :: "db \<Rightarrow> TDBProductWithVariants list" where
  "joinActive d =
     filter (\<lambda>g. snd g \<noteq> [])
       (map (\<lambda>p. (p, activeVariantsOf d (p_id p)))
          (filter (\<lambda>p. p_deletedAt p = None) (products d)))"

text \<open>
  \<^verbatim>\<open>getProductsFromDBWithoutQuery(offset, limit)\<close>: ordered by descending product id,
  \<^verbatim>\<open>LIMIT limit OFFSET offset * limit\<close>.
\<close>

definition getProductsFromDBWithoutQuery :: "db \<Rightarrow> nat \<Rightarrow> nat \<Rightarrow> TDBProductWithVariants list" where
  "getProductsFromDBWithoutQuery d offset limit =
     take limit (drop (offset * limit) (rev (sort_key (\<lambda>g. p_id (fst g)) (joinActive d))))"

definition getProductsCountFromDB :: "db \<Rightarrow> int" where
  "getProductsCountFromDB d = int (length (filter (\<lambda>p. p_deletedAt p = None) (products d)))"

text \<open>
  The search statement of \<^verbatim>\<open>getProducts\<close>, for a query that is present.
  \<open>similarity title query\<close> stands for the store's \<^verbatim>\<open>SIMILARITY(title, ${query})\<close>.
  The second component is \<^verbatim>\<open>productsData[0]?.total || 0\<close>, where \<^verbatim>\<open>total\<close> is
  \<^verbatim>\<open>count(*) over()\<close>: the number of groups before \<^verbatim>\<open>LIMIT\<close>.
\<close>

definition searchProducts ::
  "(string \<Rightarrow> jsstring \<Rightarrow> rat) \<Rightarrow> db \<Rightarrow> jsstring \<Rightarrow> nat \<Rightarrow> nat
     \<Rightarrow> TDBProductWithVariants list \<times> int" where
  "searchProducts similarity d query offset limit =
     (let matching = filter (\<lambda>g. 3 / 10 < similarity (p_title (fst g)) query) (joinActive d);
          ordered = rev (sort_key (\<lambda>g. similarity (p_title (fst g)) query) matching);
          productsData = take limit (drop (offset * limit) ordered)
      in (productsData, if productsData = [] then 0 else int (length ordered)))"

text \<open>The row insertions: the serial counter gives the identifier.\<close>

definition insertVariant :: "nat \<Rightarrow> TVariant \<Rightarrow> db \<Rightarrow> TDBVariant \<times> db" where
  "insertVariant pid variant d =
     (let row = \<lparr>v_id = next_variant_id d, v_productId = pid, v_price = tv_price variant,
                 v_quantity = tv_quantity variant, v_size = tv_size variant,
                 v_deletedAt = None\<rparr>
      in (row, d\<lparr>variants := variants d @ [row],
                 next_variant_id := Suc (next_variant_id d)\<rparr>))"

fun insertVariants :: "nat \<Rightarrow> TVariant list \<Rightarrow> db \<Rightarrow> TDBVariant list \<times> db" where
  "insertVariants pid [] d = ([], d)"
| "insertVariants pid (variant # rest) d =
     (case insertVariant pid variant d of
        (row, d1) \<Rightarrow> (case insertVariants pid rest d1 of (rows, d2) \<Rightarrow> (row # rows, d2)))"

text \<open>The transaction of \<^verbatim>\<open>createProduct\<close>.\<close>

definition createProduct_trx :: "date \<Rightarrow> TProduct \<Rightarrow> db \<Rightarrow> TDBProductWithVariants \<times> db" where
  "createProduct_trx today data d =
     (let product = \<lparr>p_id = next_product_id d, p_title = t_title data,
                     p_description = t_description data, p_image = t_imageId data,
                     p_deletedAt = None, p_createdAt = today\<rparr>;
          d1 = d\<lparr>products := products d @ [product],
                 next_product_id := Suc (next_product_id d)\<rparr>
      in (case insertVariants (p_id product) (t_variants data) d1 of
            (variantsDB, d2) \<Rightarrow> ((product, variantsDB), d2)))"

text \<open>
  The transaction of \<^verbatim>\<open>updateProduct\<close>. A field of the patch is applied when it is
  truthy: present and not the empty string. When none of the three fields is truthy the
  object handed to \<^verbatim>\<open>set\<close> is empty and the call throws inside the transaction,
  after the three lists are computed and before any variant is written.
\<close>

definition truthy :: "string option \<Rightarrow> bool" where
  "truthy s = (case s of None \<Rightarrow> False | Some x \<Rightarrow> x \<noteq> [])"

definition noValuesToSet :: "PartialTProduct \<Rightarrow> bool" where
  "noValuesToSet data =
     (\<not> truthy (pt_imageId data) \<and> \<not> truthy (pt_title data)
      \<and> \<not> truthy (pt_description data))"

definition patched :: "string option \<Rightarrow> string \<Rightarrow> string" where
  "patched new old = (case new of None \<Rightarrow> old | Some s \<Rightarrow> if s = [] then old else s)"

definition updateProductRow :: "PartialTProduct \<Rightarrow> nat \<Rightarrow> db \<Rightarrow> db" where
  "updateProductRow data pid d =
     d\<lparr>products :=
        map (\<lambda>p. if p_id p = pid
                 then p\<lparr>p_image := patched (pt_imageId data) (p_image p),
                        p_title := patched (pt_title data) (p_title p),
                        p_description := patched (pt_description data) (p_description p)\<rparr>
                 else p)
          (products d)\<rparr>"

definition insertAdded :: "nat \<Rightarrow> TVariant \<Rightarrow> db \<Rightarrow> db" where
  "insertAdded pid addedVariant d = snd (insertVariant pid addedVariant d)"

text \<open>
  What the \<^verbatim>\<open>UPDATE\<close> for an updated variant does to one row, and what the one for
  a removed variant does.
\<close>

definition updatedRow :: "nat \<Rightarrow> TVariant \<Rightarrow> TDBVariant \<Rightarrow> TDBVariant" where
  "updatedRow pid updatedVariant v =
     (if sql_eq (v_size v) (tv_size updatedVariant) \<and> v_productId v = pid
      then v\<lparr>v_size := tv_size updatedVariant,
             v_quantity := tv_quantity updatedVariant,
             v_price := tv_price updatedVariant,
             v_deletedAt := None\<rparr>
      else v)"

definition applyUpdated :: "nat \<Rightarrow> TVariant \<Rightarrow> db \<Rightarrow> db" where
  "applyUpdated pid updatedVariant d =
     d\<lparr>variants := map (updatedRow pid updatedVariant) (variants d)\<rparr>"

definition removedRow :: "date \<Rightarrow> nat \<Rightarrow> TDBVariant \<Rightarrow> TDBVariant \<Rightarrow> TDBVariant" where
  "removedRow today pid removedVariant v =
     (if sql_eq (v_size v) (v_size removedVariant) \<and> v_productId v = pid
      then v\<lparr>v_deletedAt := Some today\<rparr>
      else v)"

definition applyRemoved :: "date \<Rightarrow> nat \<Rightarrow> TDBVariant \<Rightarrow> db \<Rightarrow> db" where
  "applyRemoved today pid removedVariant d =
     d\<lparr>variants := map (removedRow today pid removedVariant) (variants d)\<rparr>"

definition updateProduct_trx :: "date \<Rightarrow> PartialTProduct \<Rightarrow> nat \<Rightarrow> db \<Rightarrow> thrown + db" where
  "updateProduct_trx today data pid d =
     (let prevVariants = filter (\<lambda>v. v_productId v = pid) (variants d);
          currentVariants = (case pt_variants data of None \<Rightarrow> [] | Some vs \<Rightarrow> vs);
          removed = removedVariants prevVariants currentVariants;
          added = addedVariants prevVariants currentVariants;
          updated = updatedVariants prevVariants currentVariants
      in if noValuesToSet data then Inl NoValuesToSet
         else
           (let d1 = updateProductRow data pid d;
                d2 = fold (insertAdded pid) added d1;
                d3 = fold (applyUpdated pid) updated d2
            in Inr (fold (applyRemoved today pid) removed d3)))"

text \<open>The statement of \<^verbatim>\<open>deleteProduct\<close>.\<close>

definition deleteProductRow :: "date \<Rightarrow> nat \<Rightarrow> db \<Rightarrow> db" where
  "deleteProductRow today pid d =
     d\<lparr>products :=
        map (\<lambda>p. if p_id p = pid then p\<lparr>p_deletedAt := Some today\<rparr> else p) (products d)\<rparr>"

text \<open>
  \<^verbatim>\<open>getProductVariants(id)\<close>: \<^verbatim>\<open>variants\<close> left-joined to \<^verbatim>\<open>purchaseItems\<close>,
  restricted to the product, grouped by variant id (the primary key: one group per
  variant row), ordered by ascending size. \<^verbatim>\<open>SUM\<close> over no purchase item is null. The
  argument is the numeric value \<^verbatim>\<open>Number(id)\<close>. In the store's order a \<open>NaN\<close> comes
  after every number.
\<close>

record ProductSale =
  ps_id :: nat
  ps_size :: jsnum
  ps_stock :: jsnum
  ps_price :: jsnum
  ps_sold :: "rat option"
  ps_revenue :: "rat option"

definition saleRow :: "db \<Rightarrow> TDBVariant \<Rightarrow> ProductSale" where
  "saleRow d v =
     (let items = filter (\<lambda>i. pi_variantId i = v_id v) (purchaseItems d)
      in \<lparr>ps_id = v_id v, ps_size = v_size v, ps_stock = v_quantity v, ps_price = v_price v,
          ps_sold = (if items = [] then None else Some (sum_list (map pi_quantity items))),
          ps_revenue = (if items = [] then None
                        else Some (sum_list (map (\<lambda>i. pi_quantity i * pi_price i) items)))\<rparr>)"

definition sql_order_key :: "jsnum \<Rightarrow> nat \<times> rat" where
  "sql_order_key x = (case x of NaN \<Rightarrow> (1, 0) | Num r \<Rightarrow> (0, r))"

definition getProductVariants :: "db \<Rightarrow> nat \<Rightarrow> string + ProductSale list" where
  "getProductVariants d pid =
     Inr (sort_key (\<lambda>r. sql_order_key (ps_size r))
            (map (saleRow d) (filter (\<lambda>v. v_productId v = pid) (variants d))))"

section \<open>Cache and actions\<close>

text \<open>
  The world an action runs in: the store, the two cache entries, the log of
  \<^verbatim>\<open>console.log\<close>, the paths handed to \<^verbatim>\<open>revalidatePath\<close>, and how many more cache
  calls succeed before the cache starts failing (\<open>None\<close>: it never fails).
\<close>

record world =
  store :: db
  productsCache :: "TDBProductWithVariants list option"
  productsCountCache :: "int option"
  cacheCallsLeft :: "nat option"
  console :: "thrown list"
  revalidated :: "string list"

type_synonym 'a action = "world \<Rightarrow> (thrown + 'a) \<times> world"

text \<open>\<^verbatim>\<open>await\<close> in sequence: a rejected step ends the \<^verbatim>\<open>try\<close> block.\<close>

definition andThen :: "'a action \<Rightarrow> ('a \<Rightarrow> 'b action) \<Rightarrow> 'b action" where
  "andThen m f w = (case m w of (Inl e, w') \<Rightarrow> (Inl e, w') | (Inr x, w') \<Rightarrow> f x w')"

definition resolve :: "'a \<Rightarrow> 'a action" where
  "resolve x w = (Inr x, w)"

definition throw :: "thrown \<Rightarrow> 'a action" where
  "throw e w = (Inl e, w)"

definition readStore :: "(db \<Rightarrow> 'a) \<Rightarrow> 'a action" where
  "readStore q w = (Inr (q (store w)), w)"

definition transaction :: "(db \<Rightarrow> 'a \<times> db) \<Rightarrow> 'a action" where
  "transaction t w = (case t (store w) of (x, d) \<Rightarrow> (Inr x, w\<lparr>store := d\<rparr>))"

text \<open>A transaction whose callback can throw: the store is then as it was.\<close>

definition transactionOrRollback :: "(db \<Rightarrow> thrown + db) \<Rightarrow> unit action" where
  "transactionOrRollback t w =
     (case t (store w) of Inl e \<Rightarrow> (Inl e, w) | Inr d \<Rightarrow> (Inr (), w\<lparr>store := d\<rparr>))"

definition revalidatePath :: "string \<Rightarrow> unit action" where
  "revalidatePath path w = (Inr (), w\<lparr>revalidated := revalidated w @ [path]\<rparr>)"

text \<open>
  Modelled from the spec: the cache module \<^verbatim>\<open>@/lib/cache/products\<close> is not among the
  sources. The spec gives its contract: \<^verbatim>\<open>get\<close> returns the cached value or an absent
  marker, \<^verbatim>\<open>set\<close> replaces it wholesale, \<^verbatim>\<open>incr\<close> and \<^verbatim>\<open>decr\<close> return the value after
  the operation. A failing cache call is a rejected promise.
\<close>

definition cacheCall :: "unit action" where
  "cacheCall w =
     (case cacheCallsLeft w of
        None \<Rightarrow> (Inr (), w)
      | Some 0 \<Rightarrow> (Inl CacheFailure, w)
      | Some (Suc n) \<Rightarrow> (Inr (), w\<lparr>cacheCallsLeft := Some n\<rparr>))"

definition ProductsCache_get :: "TDBProductWithVariants list option action" where
  "ProductsCache_get = andThen cacheCall (\<lambda>_ w. (Inr (productsCache w), w))"

definition ProductsCache_set :: "TDBProductWithVariants list \<Rightarrow> unit action" where
  "ProductsCache_set value = andThen cacheCall (\<lambda>_ w. (Inr (), w\<lparr>productsCache := Some value\<rparr>))"

definition ProductsCountCache_get :: "int option action" where
  "ProductsCountCache_get = andThen cacheCall (\<lambda>_ w. (Inr (productsCountCache w), w))"

definition ProductsCountCache_set :: "int \<Rightarrow> unit action" where
  "ProductsCountCache_set value =
     andThen cacheCall (\<lambda>_ w. (Inr (), w\<lparr>productsCountCache := Some value\<rparr>))"

definition counterValue :: "int option \<Rightarrow> int" where
  "counterValue c = (case c of None \<Rightarrow> 0 | Some n \<Rightarrow> n)"

definition ProductsCountCache_incr :: "int action" where
  "ProductsCountCache_incr =
     andThen cacheCall
       (\<lambda>_ w. (Inr (counterValue (productsCountCache w) + 1),
               w\<lparr>productsCountCache := Some (counterValue (productsCountCache w) + 1)\<rparr>))"

definition ProductsCountCache_decr :: "int action" where
  "ProductsCountCache_decr =
     andThen cacheCall
       (\<lambda>_ w. (Inr (counterValue (productsCountCache w) - 1),
               w\<lparr>productsCountCache := Some (counterValue (productsCountCache w) - 1)\<rparr>))"

text \<open>\<^verbatim>\<open>!total\<close> for a cached count: absent or zero.\<close>

definition falsy :: "int option \<Rightarrow> bool" where
  "falsy n = (n = None \<or> n = Some 0)"

text \<open>
  \<^verbatim>\<open>createProduct(data)\<close>. \<open>productSchema data\<close> stands for
  \<^verbatim>\<open>productSchema.safeParse(data).error\<close>: the schema is not among the sources, so it is
  a parameter; \<open>Some message\<close> is a failed validation with the error's message.
\<close>

definition createProduct_try ::
  "(TProduct \<Rightarrow> string option) \<Rightarrow> date \<Rightarrow> TProduct \<Rightarrow> (TDBProductWithVariants \<times> int) action" where
  "createProduct_try productSchema today data =
     andThen (case productSchema data of
                Some message \<Rightarrow> throw (ValidationFailure message)
              | None \<Rightarrow> resolve ())
     (\<lambda>_. andThen (transaction (createProduct_trx today data))
     (\<lambda>res. andThen (readStore (\<lambda>d. getProductsFromDBWithoutQuery d 0 defaultLimit))
     (\<lambda>page. andThen (ProductsCache_set page)
     (\<lambda>_. andThen ProductsCountCache_get
     (\<lambda>total1. andThen
        (if falsy total1
         then andThen (readStore getProductsCountFromDB) (\<lambda>t. ProductsCountCache_set t)
         else andThen ProductsCountCache_incr (\<lambda>_. resolve ()))
     (\<lambda>_. andThen (revalidatePath ''/products'')
     (\<lambda>_. andThen ProductsCountCache_get
     (\<lambda>total2. resolve (res, counterValue total2)))))))))"

definition createProduct ::
  "(TProduct \<Rightarrow> string option) \<Rightarrow> date \<Rightarrow> TProduct \<Rightarrow> world
     \<Rightarrow> (string + TDBProductWithVariants \<times> int) \<times> world" where
  "createProduct productSchema today data w =
     (case createProduct_try productSchema today data w of
        (Inl error, w') \<Rightarrow> (Inl ''Error creating product'', w'\<lparr>console := console w' @ [error]\<rparr>)
      | (Inr r, w') \<Rightarrow> (Inr r, w'))"

text \<open>\<^verbatim>\<open>updateProduct({data, id})\<close>.\<close>

definition updateProduct_try :: "date \<Rightarrow> PartialTProduct \<Rightarrow> nat \<Rightarrow> string action" where
  "updateProduct_try today data pid =
     andThen (transactionOrRollback (updateProduct_trx today data pid))
     (\<lambda>_. andThen (readStore (\<lambda>d. getProductsFromDBWithoutQuery d 0 defaultLimit))
     (\<lambda>page. andThen (ProductsCache_set page)
     (\<lambda>_. andThen (revalidatePath ''/products'')
     (\<lambda>_. resolve ''Product updated successfully''))))"

definition updateProduct ::
  "date \<Rightarrow> PartialTProduct \<Rightarrow> nat \<Rightarrow> world \<Rightarrow> (string + string) \<times> world" where
  "updateProduct today data pid w =
     (case updateProduct_try today data pid w of
        (Inl error, w') \<Rightarrow> (Inl ''Error updating product'', w')
      | (Inr r, w') \<Rightarrow> (Inr r, w'))"

text \<open>\<^verbatim>\<open>deleteProduct(id)\<close>: a single statement, no transaction.\<close>

definition deleteProduct_try :: "date \<Rightarrow> nat \<Rightarrow> string action" where
  "deleteProduct_try today pid =
     andThen (transaction (\<lambda>d. ((), deleteProductRow today pid d)))
     (\<lambda>_. andThen (readStore (\<lambda>d. getProductsFromDBWithoutQuery d 0 defaultLimit))
     (\<lambda>page. andThen (ProductsCache_set page)
     (\<lambda>_. andThen ProductsCountCache_decr
     (\<lambda>_. andThen (revalidatePath ''/products'')
     (\<lambda>_. resolve ''Product deleted successfully'')))))"

definition deleteProduct :: "date \<Rightarrow> nat \<Rightarrow> world \<Rightarrow> (string + string) \<times> world" where
  "deleteProduct today pid w =
     (case deleteProduct_try today pid w of
        (Inl error, w') \<Rightarrow> (Inl ''Error deleting product'', w')
      | (Inr r, w') \<Rightarrow> (Inr r, w'))"

text \<open>
  \<^verbatim>\<open>String.prototype.trim\<close> strips white space and line terminators at both ends:
  tab, line feed, vertical tab, form feed, carriage return, the space, the no-break
  space U+00A0, U+1680, U+2000 to U+200A, the line and paragraph separators U+2028 and
  U+2029, U+202F, U+205F, U+3000 and the byte order mark U+FEFF.
\<close>

definition isWhiteSpace :: "nat \<Rightarrow> bool" where
  "isWhiteSpace c =
     (c = 0x09 \<or> c = 0x0A \<or> c = 0x0B \<or> c = 0x0C \<or> c = 0x0D \<or> c = 0x20
      \<or> c = 0xA0 \<or> c = 0x1680 \<or> (0x2000 \<le> c \<and> c \<le> 0x200A)
      \<or> c = 0x2028 \<or> c = 0x2029 \<or> c = 0x202F \<or> c = 0x205F \<or> c = 0x3000
      \<or> c = 0xFEFF)"

definition trim :: "jsstring \<Rightarrow> jsstring" where
  "trim s = rev (dropWhile isWhiteSpace (rev (dropWhile isWhiteSpace s)))"

text \<open>
  \<^verbatim>\<open>getProducts(query?, offset = 0, limit = defaultLimit)\<close>. The test
  \<^verbatim>\<open>query?.trim() === ""\<close> is false for an absent query: \<^verbatim>\<open>undefined === ""\<close>. The
  action then goes on to the search statement, which fails for want of a query.
\<close>

definition isBlankQuery :: "jsstring option \<Rightarrow> bool" where
  "isBlankQuery query = (case query of None \<Rightarrow> False | Some q \<Rightarrow> trim q = [])"

definition getProducts_try ::
  "(string \<Rightarrow> jsstring \<Rightarrow> rat) \<Rightarrow> jsstring option \<Rightarrow> nat \<Rightarrow> nat
     \<Rightarrow> (TDBProductWithVariants list \<times> int) action" where
  "getProducts_try similarity query offset limit =
     andThen ProductsCountCache_get
     (\<lambda>cached. andThen
        (if falsy cached
         then andThen (readStore getProductsCountFromDB)
                (\<lambda>t. andThen (ProductsCountCache_set t) (\<lambda>_. resolve t))
         else resolve (counterValue cached))
     (\<lambda>total1.
        if isBlankQuery query then
          if offset \<noteq> 0 \<or> limit \<noteq> defaultLimit then
            andThen (readStore (\<lambda>d. getProductsFromDBWithoutQuery d offset limit))
              (\<lambda>rows. resolve (rows, total1))
          else
            andThen ProductsCache_get
            (\<lambda>cachedProducts. andThen
               (case cachedProducts of
                  Some (g # gs) \<Rightarrow> resolve (g # gs)
                | _ \<Rightarrow> readStore (\<lambda>d. getProductsFromDBWithoutQuery d 0 defaultLimit))
            (\<lambda>productsDataDB. andThen
               (if cachedProducts = None then ProductsCache_set productsDataDB else resolve ())
            (\<lambda>_. resolve (productsDataDB, total1))))
        else
          (case query of
             None \<Rightarrow> throw StatementRejected
           | Some q \<Rightarrow> readStore (\<lambda>d. searchProducts similarity d q offset limit))))"

definition getProducts ::
  "(string \<Rightarrow> jsstring \<Rightarrow> rat) \<Rightarrow> jsstring option \<Rightarrow> nat \<Rightarrow> nat \<Rightarrow> world
     \<Rightarrow> (string + TDBProductWithVariants list \<times> int) \<times> world" where
  "getProducts similarity query offset limit w =
     (case getProducts_try similarity query offset limit w of
        (Inl error, w') \<Rightarrow> (Inl ''Error getting products'', w'\<lparr>console := console w' @ [error]\<rparr>)
      | (Inr r, w') \<Rightarrow> (Inr r, w'))"

section \<open>Example states\<close>

text \<open>
  An instance: sizes 8, 9 and 10 are stored (10 soft-deleted), and sizes 8 (same values),
  9 (new price) and 11 are submitted.
\<close>

definition ex_prev :: "TDBVariant list" where
  "ex_prev =
     [\<lparr>v_id = 1, v_productId = 7, v_price = Num 100, v_quantity = Num 5, v_size = Num 8,
        v_deletedAt = None\<rparr>,
      \<lparr>v_id = 2, v_productId = 7, v_price = Num 120, v_quantity = Num 2, v_size = Num 9,
        v_deletedAt = None\<rparr>,
      \<lparr>v_id = 3, v_productId = 7, v_price = Num 150, v_quantity = Num 1, v_size = Num 10,
        v_deletedAt = Some 3\<rparr>]"

definition ex_desired :: "TVariant list" where
  "ex_desired =
     [\<lparr>tv_size = Num 8, tv_price = Num 100, tv_quantity = Num 5\<rparr>,
      \<lparr>tv_size = Num 9, tv_price = Num 130, tv_quantity = Num 2\<rparr>,
      \<lparr>tv_size = Num 11, tv_price = Num 90, tv_quantity = Num 4\<rparr>]"

text \<open>
  A store with three products: a mug with the variants above, a vase deleted on day 2, and
  a bowl that is not deleted but whose only variant is.
\<close>

definition ex_db :: db where
  "ex_db =
     \<lparr>products =
        [\<lparr>p_id = 7, p_title = ''Mug'', p_description = ''Clay mug'', p_image = ''img7'',
           p_deletedAt = None, p_createdAt = 1\<rparr>,
         \<lparr>p_id = 8, p_title = ''Vase'', p_description = ''Tall vase'', p_image = ''img8'',
           p_deletedAt = Some 2, p_createdAt = 1\<rparr>,
         \<lparr>p_id = 9, p_title = ''Bowl'', p_description = ''Deep bowl'', p_image = ''img9'',
           p_deletedAt = None, p_createdAt = 2\<rparr>],
      variants = ex_prev @
        [\<lparr>v_id = 4, v_productId = 8, v_price = Num 300, v_quantity = Num 1, v_size = Num 5,
           v_deletedAt = None\<rparr>,
         \<lparr>v_id = 5, v_productId = 9, v_price = Num 80, v_quantity = Num 0, v_size = Num 3,
           v_deletedAt = Some 2\<rparr>],
      purchaseItems =
        [\<lparr>pi_id = 1, pi_variantId = 1, pi_quantity = 2, pi_price = 100\<rparr>,
         \<lparr>pi_id = 2, pi_variantId = 1, pi_quantity = 1, pi_price = 95\<rparr>,
         \<lparr>pi_id = 3, pi_variantId = 2, pi_quantity = 3, pi_price = 120\<rparr>],
      next_product_id = 10,
      next_variant_id = 6\<rparr>"

definition ex_world :: world where
  "ex_world =
     \<lparr>store = ex_db, productsCache = None, productsCountCache = None,
      cacheCallsLeft = None, console = [], revalidated = []\<rparr>"

text \<open>A schema that asks for a title, an input it rejects and one it accepts.\<close>

definition ex_schema :: "TProduct \<Rightarrow> string option" where
  "ex_schema data = (if t_title data = [] then Some ''title: Required'' else None)"

definition ex_untitled :: TProduct where
  "ex_untitled =
     \<lparr>t_title = [], t_description = ''No title'', t_imageId = ''img0'',
      t_variants = [\<lparr>tv_size = Num 1, tv_price = Num 10, tv_quantity = Num 1\<rparr>]\<rparr>"

definition ex_plate :: TProduct where
  "ex_plate =
     \<lparr>t_title = ''Plate'', t_description = ''Flat plate'', t_imageId = ''img10'',
      t_variants = [\<lparr>tv_size = Num 12, tv_price = Num 60, tv_quantity = Num 3\<rparr>]\<rparr>"

text \<open>
  A similarity function for examples, and a store with three products whose scores for
  the query \<^verbatim>\<open>ug\<close> are 0.25, 0.31 and 0.3.
\<close>

definition ex_sim :: "string \<Rightarrow> jsstring \<Rightarrow> rat" where
  "ex_sim title q =
     (if q = codeUnits title then 1
      else if q = codeUnits ''ug'' then
        (if title = ''Mug'' then 31 / 100
         else if title = ''Jug'' then 3 / 10
         else if title = ''Rug'' then 1 / 4
         else 0)
      else 0)"

definition ex_shop :: db where
  "ex_shop =
     \<lparr>products =
        [\<lparr>p_id = 1, p_title = ''Rug'', p_description = ''Wool rug'', p_image = ''img1'',
           p_deletedAt = None, p_createdAt = 1\<rparr>,
         \<lparr>p_id = 2, p_title = ''Mug'', p_description = ''Clay mug'', p_image = ''img2'',
           p_deletedAt = None, p_createdAt = 1\<rparr>,
         \<lparr>p_id = 3, p_title = ''Jug'', p_description = ''Glass jug'', p_image = ''img3'',
           p_deletedAt = None, p_createdAt = 1\<rparr>],
      variants =
        [\<lparr>v_id = 1, v_productId = 1, v_price = Num 900, v_quantity = Num 1, v_size = Num 2,
           v_deletedAt = None\<rparr>,
         \<lparr>v_id = 2, v_productId = 2, v_price = Num 100, v_quantity = Num 5, v_size = Num 8,
           v_deletedAt = None\<rparr>,
         \<lparr>v_id = 3, v_productId = 3, v_price = Num 250, v_quantity = Num 2, v_size = Num 1,
           v_deletedAt = None\<rparr>],
      purchaseItems = [],
      next_product_id = 4,
      next_variant_id = 4\<rparr>"

text \<open>The example world with page one and the count in the cache.\<close>

definition ex_cached :: world where
  "ex_cached =
     ex_world\<lparr>productsCache := Some [(products ex_db ! 0, [ex_prev ! 0, ex_prev ! 1])],
              productsCountCache := Some 2\<rparr>"

text \<open>
  Two updates of the mug: one submits size 10 with a new price, the other submits the
  three stored sizes with their stored values.
\<close>

definition ex_reprice :: PartialTProduct where
  "ex_reprice =
     \<lparr>pt_title = Some ''Mug'', pt_description = None, pt_imageId = None,
      pt_variants = Some
        [\<lparr>tv_size = Num 8, tv_price = Num 100, tv_quantity = Num 5\<rparr>,
         \<lparr>tv_size = Num 9, tv_price = Num 120, tv_quantity = Num 2\<rparr>,
         \<lparr>tv_size = Num 10, tv_price = Num 175, tv_quantity = Num 1\<rparr>]\<rparr>"

definition ex_resubmit :: PartialTProduct where
  "ex_resubmit =
     \<lparr>pt_title = Some ''Mug'', pt_description = None, pt_imageId = None,
      pt_variants = Some
        [\<lparr>tv_size = Num 8, tv_price = Num 100, tv_quantity = Num 5\<rparr>,
         \<lparr>tv_size = Num 9, tv_price = Num 120, tv_quantity = Num 2\<rparr>,
         \<lparr>tv_size = Num 10, tv_price = Num 150, tv_quantity = Num 1\<rparr>]\<rparr>"

text \<open>
  An update of the mug that submits size 10 twice: once with the stored values and once
  with a new price.
\<close>

definition ex_twice :: PartialTProduct where
  "ex_twice =
     \<lparr>pt_title = Some ''Mug'', pt_description = None, pt_imageId = None,
      pt_variants = Some
        [\<lparr>tv_size = Num 8, tv_price = Num 100, tv_quantity = Num 5\<rparr>,
         \<lparr>tv_size = Num 9, tv_price = Num 120, tv_quantity = Num 2\<rparr>,
         \<lparr>tv_size = Num 10, tv_price = Num 150, tv_quantity = Num 1\<rparr>,
         \<lparr>tv_size = Num 10, tv_price = Num 175, tv_quantity = Num 1\<rparr>]\<rparr>"

text \<open>
  A store where the mug has two soft-deleted rows of size 10, with prices 150 and 175,
  and an update that submits size 10 at price 150.
\<close>

definition ex_twin_world :: world where
  "ex_twin_world =
     \<lparr>store =
        \<lparr>products =
           [\<lparr>p_id = 7, p_title = ''Mug'', p_description = ''Clay mug'', p_image = ''img7'',
              p_deletedAt = None, p_createdAt = 1\<rparr>],
         variants =
           [\<lparr>v_id = 1, v_productId = 7, v_price = Num 150, v_quantity = Num 1,
              v_size = Num 10, v_deletedAt = Some 3\<rparr>,
            \<lparr>v_id = 2, v_productId = 7, v_price = Num 175, v_quantity = Num 1,
              v_size = Num 10, v_deletedAt = Some 3\<rparr>],
         purchaseItems = [],
         next_product_id = 8,
         next_variant_id = 3\<rparr>,
      productsCache = None, productsCountCache = None, cacheCallsLeft = None,
      console = [], revalidated = []\<rparr>"

definition ex_relist :: PartialTProduct where
  "ex_relist =
     \<lparr>pt_title = Some ''Mug'', pt_description = None, pt_imageId = None,
      pt_variants = Some [\<lparr>tv_size = Num 10, tv_price = Num 150, tv_quantity = Num 1\<rparr>]\<rparr>"

section \<open>Properties of actions\<close>

text \<open>An action that leaves the store as it found it.\<close>

definition keepsStore :: "'a action \<Rightarrow> bool" where
  "keepsStore m = (\<forall>w. store (snd (m w)) = store w)"

section \<open>Reconciliation: proofs\<close>

lemma strict_eq_sym: "strict_eq a b = strict_eq b a"
  by (auto simp: strict_eq_def)

lemma strict_eq_trans: "strict_eq a b \<Longrightarrow> strict_eq b c \<Longrightarrow> strict_eq a c"
  by (auto simp: strict_eq_def)

lemma removed_eq_spec: "removedVariants P D = spec_removed P D"
  unfolding removedVariants_def spec_removed_def spec_matches_def
  by (rule filter_cong) (auto simp: list_ex_iff list_all_iff strict_eq_sym)

lemma added_eq_spec: "addedVariants P D = spec_added P D"
  unfolding addedVariants_def spec_added_def spec_matches_def
  by (rule filter_cong) (auto simp: list_ex_iff list_all_iff)

lemma find_keyed:
  assumes "keyed_by_size P" and "p \<in> set P" and "strict_eq (v_size p) s"
  shows "find (\<lambda>q. strict_eq (v_size q) s) P = Some p"
  using assms
proof (induction P)
  case Nil
  then show ?case by simp
next
  case (Cons q qs)
  show ?case
  proof (cases "strict_eq (v_size q) s")
    case True
    have "p = q"
    proof (rule ccontr)
      assume "p \<noteq> q"
      with Cons.prems have "p \<in> set qs" by simp
      moreover have "strict_eq (v_size q) (v_size p)"
        using True Cons.prems(3) strict_eq_sym strict_eq_trans by blast
      ultimately show False using Cons.prems(1) by (auto simp: list_all_iff)
    qed
    with True show ?thesis by simp
  next
    case False
    with Cons.prems have "p \<in> set qs" by auto
    with Cons False show ?thesis by simp
  qed
qed

lemma isUpdated_keyed:
  assumes "keyed_by_size P"
  shows "isUpdated P c = list_ex (\<lambda>p. spec_matches p c \<and> \<not> spec_same_values p c) P"
proof (cases "find (\<lambda>q. strict_eq (v_size q) (tv_size c)) P")
  case None
  then have "\<forall>p\<in>set P. \<not> strict_eq (v_size p) (tv_size c)"
    by (simp add: find_None_iff)
  with None show ?thesis
    by (auto simp: isUpdated_def list_ex_iff spec_matches_def)
next
  case (Some q)
  then have q: "q \<in> set P" "strict_eq (v_size q) (tv_size c)"
    by (auto simp: find_Some_iff dest: nth_mem)
  have uniq: "p = q" if "p \<in> set P" "strict_eq (v_size p) (tv_size c)" for p
    using find_keyed [OF assms that] Some by simp
  have lhs: "isUpdated P c = (\<not> spec_same_values q c)"
    using Some by (simp add: isUpdated_def spec_same_values_def)
  have rhs: "list_ex (\<lambda>p. spec_matches p c \<and> \<not> spec_same_values p c) P
             = (\<not> spec_same_values q c)"
  proof
    assume "list_ex (\<lambda>p. spec_matches p c \<and> \<not> spec_same_values p c) P"
    then obtain p where p: "p \<in> set P" "spec_matches p c" "\<not> spec_same_values p c"
      unfolding list_ex_iff by blast
    from p(1,2) have "p = q" by (intro uniq) (simp_all add: spec_matches_def)
    with p(3) show "\<not> spec_same_values q c" by simp
  next
    assume "\<not> spec_same_values q c"
    with q show "list_ex (\<lambda>p. spec_matches p c \<and> \<not> spec_same_values p c) P"
      unfolding list_ex_iff spec_matches_def by blast
  qed
  from lhs rhs show ?thesis by simp
qed

lemma updated_eq_spec: "keyed_by_size P \<Longrightarrow> updatedVariants P D = spec_updated P D"
  unfolding updatedVariants_def spec_updated_def
  by (rule filter_cong) (auto simp: isUpdated_keyed)

lemma isUpdated_matches:
  "isUpdated P c \<Longrightarrow> list_ex (\<lambda>p. strict_eq (v_size p) (tv_size c)) P"
  by (auto simp: isUpdated_def list_ex_iff find_Some_iff split: option.splits dest: nth_mem)

lemma mset_three_filters:
  assumes "\<And>x. x \<in> set xs \<Longrightarrow>
             (A x \<and> \<not> B x \<and> \<not> C x) \<or> (\<not> A x \<and> B x \<and> \<not> C x) \<or> (\<not> A x \<and> \<not> B x \<and> C x)"
  shows "mset (filter A xs) + mset (filter B xs) + mset (filter C xs) = mset xs"
  using assms
proof (induction xs)
  case Nil
  then show ?case by simp
next
  case (Cons x xs)
  have rest: "mset (filter A xs) + mset (filter B xs) + mset (filter C xs) = mset xs"
    using Cons by simp
  have "(A x \<and> \<not> B x \<and> \<not> C x) \<or> (\<not> A x \<and> B x \<and> \<not> C x) \<or> (\<not> A x \<and> \<not> B x \<and> C x)"
    using Cons.prems by simp
  with rest show ?case by auto
qed

lemma added_updated_disjoint:
  "disjoint_sizes (map tv_size (addedVariants P D)) (map tv_size (updatedVariants P D))"
proof -
  have "\<not> strict_eq (tv_size a) (tv_size u)"
    if a: "a \<in> set (addedVariants P D)" and u: "u \<in> set (updatedVariants P D)" for a u
  proof
    assume eq: "strict_eq (tv_size a) (tv_size u)"
    from u have "list_ex (\<lambda>p. strict_eq (v_size p) (tv_size u)) P"
      by (simp add: updatedVariants_def isUpdated_matches)
    then obtain p where p: "p \<in> set P" "strict_eq (v_size p) (tv_size u)"
      unfolding list_ex_iff by blast
    from eq have "strict_eq (tv_size u) (tv_size a)" by (simp add: strict_eq_sym)
    with p(2) have "strict_eq (v_size p) (tv_size a)" by (rule strict_eq_trans)
    with p(1) a show False by (auto simp: addedVariants_def list_ex_iff)
  qed
  then show ?thesis by (auto simp: disjoint_sizes_def list_all_iff)
qed

lemma added_removed_disjoint:
  "disjoint_sizes (map tv_size (addedVariants P D)) (map v_size (removedVariants P D))"
  by (auto simp: disjoint_sizes_def list_all_iff addedVariants_def removedVariants_def
      list_ex_iff strict_eq_sym)

lemma updated_removed_disjoint:
  "disjoint_sizes (map tv_size (updatedVariants P D)) (map v_size (removedVariants P D))"
  by (auto simp: disjoint_sizes_def list_all_iff updatedVariants_def removedVariants_def
      list_ex_iff)

lemma unchanged_not_removed:
  "disjoint_sizes (map tv_size (spec_unchanged P D)) (map v_size (removedVariants P D))"
  by (auto simp: disjoint_sizes_def list_all_iff spec_unchanged_def removedVariants_def
      list_ex_iff)

lemma classified_once:
  assumes "keyed_by_size P"
  shows "mset (addedVariants P D) + mset (updatedVariants P D) + mset (spec_unchanged P D)
         = mset D"
  unfolding addedVariants_def updatedVariants_def spec_unchanged_def
proof (rule mset_three_filters)
  fix c :: TVariant
  let ?A = "\<not> list_ex (\<lambda>p. strict_eq (v_size p) (tv_size c)) P"
  let ?U = "isUpdated P c"
  let ?N = "list_ex (\<lambda>p. spec_matches p c \<and> spec_same_values p c) P"
  show "(?A \<and> \<not> ?U \<and> \<not> ?N) \<or> (\<not> ?A \<and> ?U \<and> \<not> ?N) \<or> (\<not> ?A \<and> \<not> ?U \<and> ?N)"
  proof (cases "find (\<lambda>q. strict_eq (v_size q) (tv_size c)) P")
    case None
    then have no: "\<forall>p\<in>set P. \<not> strict_eq (v_size p) (tv_size c)"
      by (simp add: find_None_iff)
    then have "?A" "\<not> ?N" by (auto simp: list_ex_iff spec_matches_def)
    moreover have "\<not> ?U" using None by (simp add: isUpdated_def)
    ultimately show ?thesis by blast
  next
    case (Some q)
    then have q: "q \<in> set P" "strict_eq (v_size q) (tv_size c)"
      by (auto simp: find_Some_iff dest: nth_mem)
    then have nA: "\<not> ?A" unfolding list_ex_iff by blast
    have U: "?U = (\<not> spec_same_values q c)"
      using Some by (simp add: isUpdated_def spec_same_values_def)
    have N: "?N = spec_same_values q c"
    proof
      assume ?N
      then obtain p where p: "p \<in> set P" "spec_matches p c" "spec_same_values p c"
        unfolding list_ex_iff by blast
      from p(2) have "strict_eq (v_size p) (tv_size c)" by (simp add: spec_matches_def)
      from find_keyed [OF assms p(1) this] Some have "p = q" by simp
      with p(3) show "spec_same_values q c" by simp
    next
      assume "spec_same_values q c"
      with q show ?N unfolding list_ex_iff spec_matches_def by blast
    qed
    from nA U N show ?thesis by blast
  qed
qed

text \<open>
  Claim C1. For previous rows \<open>P\<close> keyed by size and any submitted list \<open>D\<close>, the three
  filters of \<^verbatim>\<open>updateProduct\<close> are the classification of the specification: removed
  are the rows of \<open>P\<close> whose size no element of \<open>D\<close> has, added the elements of \<open>D\<close>
  whose size no row of \<open>P\<close> has, updated the elements of \<open>D\<close> matching a row of \<open>P\<close>
  with another price or quantity. The elements of \<open>D\<close> that match a row with the same
  price and quantity are in none of the three lists, the three lists share no size, and
  added, updated and unchanged together hold every element of \<open>D\<close> exactly once. Sizes
  are compared as numbers.
\<close>

theorem reconciliation_classifies_once:
  assumes "keyed_by_size P"
  shows "removedVariants P D = spec_removed P D
       \<and> addedVariants P D = spec_added P D
       \<and> updatedVariants P D = spec_updated P D
       \<and> set (spec_unchanged P D) \<inter> set (addedVariants P D) = {}
       \<and> set (spec_unchanged P D) \<inter> set (updatedVariants P D) = {}
       \<and> disjoint_sizes (map tv_size (spec_unchanged P D)) (map v_size (removedVariants P D))
       \<and> disjoint_sizes (map tv_size (addedVariants P D)) (map tv_size (updatedVariants P D))
       \<and> disjoint_sizes (map tv_size (addedVariants P D)) (map v_size (removedVariants P D))
       \<and> disjoint_sizes (map tv_size (updatedVariants P D)) (map v_size (removedVariants P D))
       \<and> mset (addedVariants P D) + mset (updatedVariants P D) + mset (spec_unchanged P D)
           = mset D"
proof -
  have ua: "set (spec_unchanged P D) \<inter> set (addedVariants P D) = {}"
    by (auto simp: spec_unchanged_def addedVariants_def list_ex_iff spec_matches_def)
  have uu: "set (spec_unchanged P D) \<inter> set (updatedVariants P D) = {}"
    unfolding updated_eq_spec [OF assms]
  proof -
    have "\<not> (c \<in> set (spec_unchanged P D) \<and> c \<in> set (spec_updated P D))" for c
    proof
      assume c: "c \<in> set (spec_unchanged P D) \<and> c \<in> set (spec_updated P D)"
      then obtain p q where p: "p \<in> set P" "spec_matches p c" "spec_same_values p c"
        and q: "q \<in> set P" "spec_matches q c" "\<not> spec_same_values q c"
        unfolding spec_unchanged_def spec_updated_def list_ex_iff by auto
      from p(2) q(2) have sp: "strict_eq (v_size p) (tv_size c)"
        and sq: "strict_eq (v_size q) (tv_size c)" by (simp_all add: spec_matches_def)
      from find_keyed [OF assms p(1) sp] find_keyed [OF assms q(1) sq] have "p = q" by simp
      with p(3) q(3) show False by simp
    qed
    then show "set (spec_unchanged P D) \<inter> set (spec_updated P D) = {}" by blast
  qed
  show ?thesis
    using removed_eq_spec [of P D] added_eq_spec [of P D] updated_eq_spec [OF assms, of D]
      ua uu unchanged_not_removed [of P D] added_updated_disjoint [of P D]
      added_removed_disjoint [of P D] updated_removed_disjoint [of P D]
      classified_once [OF assms, of D]
    by blast
qed

theorem reconciliation_classifies_once_witness:
  "keyed_by_size ex_prev
   \<and> removedVariants ex_prev ex_desired = [ex_prev ! 2]
   \<and> addedVariants ex_prev ex_desired = [ex_desired ! 2]
   \<and> updatedVariants ex_prev ex_desired = [ex_desired ! 1]
   \<and> spec_unchanged ex_prev ex_desired = [ex_desired ! 0]
   \<and> updatedVariants ex_prev ex_desired = spec_updated ex_prev ex_desired
   \<and> mset (addedVariants ex_prev ex_desired) + mset (updatedVariants ex_prev ex_desired)
       + mset (spec_unchanged ex_prev ex_desired) = mset ex_desired"
proof -
  have k: "keyed_by_size ex_prev"
    by (simp add: ex_prev_def strict_eq_def)
  have r: "removedVariants ex_prev ex_desired = [ex_prev ! 2]"
    by (simp add: removedVariants_def ex_prev_def ex_desired_def strict_eq_def)
  have a: "addedVariants ex_prev ex_desired = [ex_desired ! 2]"
    by (simp add: addedVariants_def ex_prev_def ex_desired_def strict_eq_def)
  have u: "updatedVariants ex_prev ex_desired = [ex_desired ! 1]"
    by (simp add: updatedVariants_def isUpdated_def ex_prev_def ex_desired_def strict_eq_def)
  have n: "spec_unchanged ex_prev ex_desired = [ex_desired ! 0]"
    by (simp add: spec_unchanged_def spec_matches_def spec_same_values_def ex_prev_def
        ex_desired_def strict_eq_def)
  from reconciliation_classifies_once [OF k, of ex_desired] k r a u n show ?thesis
    by blast
qed

section \<open>Actions: proofs\<close>

lemma keepsStore_andThen:
  assumes "keepsStore m" and "\<And>x. keepsStore (f x)"
  shows "keepsStore (andThen m f)"
  unfolding keepsStore_def
proof
  fix w
  obtain r w' where mw: "m w = (r, w')" by (cases "m w")
  from assms(1) mw have s: "store w' = store w"
    unfolding keepsStore_def by (metis snd_conv)
  show "store (snd (andThen m f w)) = store w"
  proof (cases r)
    case (Inl e)
    with mw s show ?thesis by (simp add: andThen_def)
  next
    case (Inr x)
    from assms(2) [of x] have "store (snd (f x w')) = store w'"
      unfolding keepsStore_def by blast
    with Inr mw s show ?thesis by (simp add: andThen_def)
  qed
qed

lemma keepsStore_resolve: "keepsStore (resolve x)"
  by (simp add: keepsStore_def resolve_def)

lemma keepsStore_throw: "keepsStore (throw e)"
  by (simp add: keepsStore_def throw_def)

lemma keepsStore_readStore: "keepsStore (readStore q)"
  by (simp add: keepsStore_def readStore_def)

lemma keepsStore_revalidatePath: "keepsStore (revalidatePath path)"
  by (simp add: keepsStore_def revalidatePath_def)

lemma keepsStore_cacheCall: "keepsStore cacheCall"
  by (simp add: keepsStore_def cacheCall_def split: option.split nat.split)

lemma keepsStore_cache:
  "keepsStore ProductsCache_get" "keepsStore (ProductsCache_set v)"
  "keepsStore ProductsCountCache_get" "keepsStore (ProductsCountCache_set n)"
  "keepsStore ProductsCountCache_incr" "keepsStore ProductsCountCache_decr"
  unfolding ProductsCache_get_def ProductsCache_set_def ProductsCountCache_get_def
    ProductsCountCache_set_def ProductsCountCache_incr_def ProductsCountCache_decr_def
  by (rule keepsStore_andThen, rule keepsStore_cacheCall, simp add: keepsStore_def)+

lemma keepsStore_if:
  "keepsStore a \<Longrightarrow> keepsStore b \<Longrightarrow> keepsStore (if c then a else b)"
  by simp

lemmas keepsStore_intros = keepsStore_if keepsStore_andThen keepsStore_resolve keepsStore_throw
  keepsStore_readStore keepsStore_revalidatePath keepsStore_cache

lemma transaction_andThen_store:
  assumes "\<And>x. keepsStore (f x)"
  shows "store (snd (andThen (transaction t) f w)) = snd (t (store w))"
proof -
  obtain x d where t: "t (store w) = (x, d)" by (cases "t (store w)")
  from assms [of x] have "store (snd (f x (w\<lparr>store := d\<rparr>))) = d"
    unfolding keepsStore_def by simp
  with t show ?thesis by (simp add: andThen_def transaction_def)
qed

lemma deleteProduct_store:
  "store (snd (deleteProduct today pid w)) = deleteProductRow today pid (store w)"
proof -
  have "store (snd (deleteProduct_try today pid w)) = deleteProductRow today pid (store w)"
    unfolding deleteProduct_try_def
    by (subst transaction_andThen_store) (intro keepsStore_intros, simp)
  then show ?thesis
    by (auto simp: deleteProduct_def split: prod.split sum.split)
qed

lemma stamped_rows:
  "list_all (\<lambda>p. p_id p = pid \<longrightarrow> p_deletedAt p = Some today)
     (map (\<lambda>p. if p_id p = pid then p\<lparr>p_deletedAt := Some today\<rparr> else p) ps)"
  by (induction ps) simp_all

lemma deleteProductRow_stamps:
  "list_all (\<lambda>p. p_id p = pid \<longrightarrow> p_deletedAt p = Some today)
     (products (deleteProductRow today pid d))"
  by (simp add: deleteProductRow_def stamped_rows)

lemma restamp_same:
  "p_deletedAt p = Some today \<Longrightarrow> p\<lparr>p_deletedAt := Some today\<rparr> = (p :: TDBProduct)"
  by (cases p) simp

lemma deleteProductRow_same_day:
  assumes "list_all (\<lambda>p. p_id p = pid \<longrightarrow> p_deletedAt p = Some today) (products d)"
  shows "deleteProductRow today pid d = d"
proof -
  have "map (\<lambda>p. if p_id p = pid then p\<lparr>p_deletedAt := Some today\<rparr> else p) (products d)
        = products d"
  proof (rule map_idI)
    fix p assume "p \<in> set (products d)"
    with assms have "p_id p = pid \<longrightarrow> p_deletedAt p = Some today"
      by (simp add: list_all_iff)
    then show "(if p_id p = pid then p\<lparr>p_deletedAt := Some today\<rparr> else p) = p"
      by (simp add: restamp_same)
  qed
  then show ?thesis by (simp add: deleteProductRow_def)
qed

text \<open>
  Claim C3, as amended. \<^verbatim>\<open>deleteProduct\<close> sets the deletion timestamp of the product to
  the current date whether or not the product was deleted before. Deleting a product
  again leaves the store as it was when the stored timestamp is the current date, so
  two deletions on one day give the store of one; on a later day the timestamp is
  replaced by that day.
\<close>

theorem deleteProduct_stamps_current_date:
  "list_all (\<lambda>p. p_id p = pid \<longrightarrow> p_deletedAt p = Some today)
     (products (store (snd (deleteProduct today pid w))))
   \<and> (list_all (\<lambda>p. p_id p = pid \<longrightarrow> p_deletedAt p = Some today) (products (store w))
        \<longrightarrow> store (snd (deleteProduct today pid w)) = store w)
   \<and> store (snd (deleteProduct today pid (snd (deleteProduct today pid w))))
       = store (snd (deleteProduct today pid w))"
proof -
  have a: "list_all (\<lambda>p. p_id p = pid \<longrightarrow> p_deletedAt p = Some today)
     (products (store (snd (deleteProduct today pid w))))"
    unfolding deleteProduct_store by (rule deleteProductRow_stamps)
  have b: "store (snd (deleteProduct today pid w)) = store w"
    if "list_all (\<lambda>p. p_id p = pid \<longrightarrow> p_deletedAt p = Some today) (products (store w))"
    unfolding deleteProduct_store using that by (rule deleteProductRow_same_day)
  have c: "store (snd (deleteProduct today pid (snd (deleteProduct today pid w))))
       = store (snd (deleteProduct today pid w))"
    unfolding deleteProduct_store
    by (rule deleteProductRow_same_day) (rule deleteProductRow_stamps)
  from a b c show ?thesis by blast
qed


theorem deleteProduct_stamps_current_date_witness:
  "list_all (\<lambda>p. p_id p = 8 \<longrightarrow> p_deletedAt p = Some 2) (products (store ex_world))
   \<and> store (snd (deleteProduct 2 8 ex_world)) = store ex_world"
proof -
  have h: "list_all (\<lambda>p. p_id p = 8 \<longrightarrow> p_deletedAt p = Some 2) (products (store ex_world))"
    by (simp add: ex_world_def ex_db_def)
  from deleteProduct_stamps_current_date [of 8 2 ex_world] h show ?thesis
    by blast
qed

text \<open>
  The vase was deleted on day 2; deleting it again on day 5 replaces the timestamp.
\<close>

theorem deleteProduct_refreshes_timestamp_counterexample:
  "map p_deletedAt (products (store ex_world)) = [None, Some 2, None]
   \<and> map p_deletedAt (products (store (snd (deleteProduct 5 8 ex_world))))
       = [None, Some 5, None]"
  by (simp add: deleteProduct_store deleteProductRow_def ex_world_def ex_db_def)

text \<open>
  Claim C4, as amended. For an input that fails the schema validation,
  \<^verbatim>\<open>createProduct\<close> returns the generic error \<^verbatim>\<open>Error creating product\<close>; the
  validation message is written to the log only. No row is inserted and no cache entry
  is touched: the world is the one before the call but for the log.
\<close>

theorem createProduct_invalid_input:
  assumes "productSchema data = Some message"
  shows "createProduct productSchema today data w
         = (Inl ''Error creating product'',
            w\<lparr>console := console w @ [ValidationFailure message]\<rparr>)"
  using assms
  by (simp add: createProduct_def createProduct_try_def andThen_def throw_def)

theorem createProduct_invalid_input_witness:
  "ex_schema ex_untitled = Some ''title: Required''
   \<and> createProduct ex_schema 5 ex_untitled ex_world
       = (Inl ''Error creating product'',
          ex_world\<lparr>console := [ValidationFailure ''title: Required'']\<rparr>)"
proof -
  have v: "ex_schema ex_untitled = Some ''title: Required''"
    by (simp add: ex_schema_def ex_untitled_def)
  from createProduct_invalid_input
      [where productSchema = ex_schema and data = ex_untitled and today = 5
         and w = ex_world and message = "''title: Required''"] v
  show ?thesis
    by (simp add: ex_world_def)
qed

text \<open>
  The response for the untitled input carries the generic text, not the message of the
  validation.
\<close>

theorem createProduct_invalid_input_counterexample:
  "ex_schema ex_untitled = Some ''title: Required''
   \<and> fst (createProduct ex_schema 5 ex_untitled ex_world) = Inl ''Error creating product''
   \<and> fst (createProduct ex_schema 5 ex_untitled ex_world) \<noteq> Inl ''title: Required''"
  by (simp add: createProduct_def createProduct_try_def andThen_def throw_def
      ex_schema_def ex_untitled_def)

lemma cache_down:
  assumes "cacheCallsLeft w = Some 0"
  shows "ProductsCache_get w = (Inl CacheFailure, w)"
    and "ProductsCache_set v w = (Inl CacheFailure, w)"
    and "ProductsCountCache_get w = (Inl CacheFailure, w)"
    and "ProductsCountCache_set n w = (Inl CacheFailure, w)"
    and "ProductsCountCache_incr w = (Inl CacheFailure, w)"
    and "ProductsCountCache_decr w = (Inl CacheFailure, w)"
  using assms
  by (simp_all add: ProductsCache_get_def ProductsCache_set_def ProductsCountCache_get_def
      ProductsCountCache_set_def ProductsCountCache_incr_def ProductsCountCache_decr_def
      andThen_def cacheCall_def)

lemma cache_up:
  assumes "cacheCallsLeft w = Some (Suc k)"
  shows "ProductsCache_get w = (Inr (productsCache w), w\<lparr>cacheCallsLeft := Some k\<rparr>)"
    and "ProductsCache_set v w
         = (Inr (), w\<lparr>cacheCallsLeft := Some k, productsCache := Some v\<rparr>)"
    and "ProductsCountCache_get w
         = (Inr (productsCountCache w), w\<lparr>cacheCallsLeft := Some k\<rparr>)"
    and "ProductsCountCache_set n w
         = (Inr (), w\<lparr>cacheCallsLeft := Some k, productsCountCache := Some n\<rparr>)"
    and "ProductsCountCache_incr w
         = (Inr (counterValue (productsCountCache w) + 1),
            w\<lparr>cacheCallsLeft := Some k,
              productsCountCache := Some (counterValue (productsCountCache w) + 1)\<rparr>)"
    and "ProductsCountCache_decr w
         = (Inr (counterValue (productsCountCache w) - 1),
            w\<lparr>cacheCallsLeft := Some k,
              productsCountCache := Some (counterValue (productsCountCache w) - 1)\<rparr>)"
  using assms
  by (simp_all add: ProductsCache_get_def ProductsCache_set_def ProductsCountCache_get_def
      ProductsCountCache_set_def ProductsCountCache_incr_def ProductsCountCache_decr_def
      andThen_def cacheCall_def)

lemma cache_sound:
  assumes "cacheCallsLeft w = None"
  shows "ProductsCache_get w = (Inr (productsCache w), w)"
    and "ProductsCache_set v w = (Inr (), w\<lparr>productsCache := Some v\<rparr>)"
    and "ProductsCountCache_get w = (Inr (productsCountCache w), w)"
    and "ProductsCountCache_set n w = (Inr (), w\<lparr>productsCountCache := Some n\<rparr>)"
    and "ProductsCountCache_incr w
         = (Inr (counterValue (productsCountCache w) + 1),
            w\<lparr>productsCountCache := Some (counterValue (productsCountCache w) + 1)\<rparr>)"
    and "ProductsCountCache_decr w
         = (Inr (counterValue (productsCountCache w) - 1),
            w\<lparr>productsCountCache := Some (counterValue (productsCountCache w) - 1)\<rparr>)"
  using assms
  by (simp_all add: ProductsCache_get_def ProductsCache_set_def ProductsCountCache_get_def
      ProductsCountCache_set_def ProductsCountCache_incr_def ProductsCountCache_decr_def
      andThen_def cacheCall_def)

lemma createProduct_store:
  assumes "productSchema data = None"
  shows "store (snd (createProduct productSchema today data w))
         = snd (createProduct_trx today data (store w))"
proof -
  have "store (snd (createProduct_try productSchema today data w))
        = snd (createProduct_trx today data (store w))"
    unfolding createProduct_try_def using assms
    by (simp add: andThen_def [of "resolve ()"] resolve_def cong: if_cong)
       (subst transaction_andThen_store, intro keepsStore_intros, simp)
  then show ?thesis
    by (auto simp: createProduct_def split: prod.split sum.split)
qed

lemma createProduct_cache_failure_result:
  assumes "productSchema data = None" and "cacheCallsLeft w = Some n" and "n < 4"
  shows "fst (createProduct productSchema today data w) = Inl ''Error creating product''"
proof -
  obtain res d where t: "createProduct_trx today data (store w) = (res, d)"
    by (cases "createProduct_trx today data (store w)")
  from assms(3) consider "n = 0" | "n = Suc 0" | "n = Suc (Suc 0)" | "n = Suc (Suc (Suc 0))"
    by linarith
  then have "fst (createProduct_try productSchema today data w) = Inl CacheFailure"
  proof cases
    case 1
    with assms t show ?thesis
      by (simp add: createProduct_try_def andThen_def resolve_def transaction_def
          readStore_def cache_down)
  next
    case 2
    with assms t show ?thesis
      by (simp add: createProduct_try_def andThen_def resolve_def transaction_def
          readStore_def cache_down cache_up)
  next
    case 3
    with assms t show ?thesis
      by (simp add: createProduct_try_def andThen_def resolve_def transaction_def
          readStore_def cache_down cache_up)
  next
    case 4
    with assms t show ?thesis
      by (simp add: createProduct_try_def andThen_def resolve_def transaction_def
          readStore_def revalidatePath_def cache_down cache_up)
  qed
  then show ?thesis
    by (auto simp: createProduct_def split: prod.split sum.split)
qed


lemma insertVariants_products:
  "products (snd (insertVariants pid vs d)) = products d"
  by (induction vs arbitrary: d)
     (simp_all add: insertVariant_def Let_def case_prod_unfold)

lemma createProduct_trx_products:
  "products (snd (createProduct_trx today data d))
   = products d @ [\<lparr>p_id = next_product_id d, p_title = t_title data,
                     p_description = t_description data, p_image = t_imageId data,
                     p_deletedAt = None, p_createdAt = today\<rparr>]"
proof -
  let ?d1 = "d\<lparr>products := products d @ [\<lparr>p_id = next_product_id d, p_title = t_title data,
                     p_description = t_description data, p_image = t_imageId data,
                     p_deletedAt = None, p_createdAt = today\<rparr>],
                 next_product_id := Suc (next_product_id d)\<rparr>"
  have "snd (createProduct_trx today data d)
        = snd (insertVariants (next_product_id d) (t_variants data) ?d1)"
    by (simp add: createProduct_trx_def Let_def case_prod_unfold)
  then show ?thesis by (simp add: insertVariants_products)
qed

text \<open>
  Claim C5, as amended. \<^verbatim>\<open>createProduct\<close> makes four cache calls after its
  transaction has committed, all inside the \<^verbatim>\<open>try\<close> block. When one of them fails,
  the caller gets the generic error \<^verbatim>\<open>Error creating product\<close>, although the rows
  of the transaction stay in the store.
\<close>

theorem createProduct_cache_failure_is_fatal:
  assumes "productSchema data = None" and "cacheCallsLeft w = Some n" and "n < 4"
  shows "fst (createProduct productSchema today data w) = Inl ''Error creating product''
       \<and> store (snd (createProduct productSchema today data w))
           = snd (createProduct_trx today data (store w))
       \<and> products (store (snd (createProduct productSchema today data w)))
           = products (store w) @
               [\<lparr>p_id = next_product_id (store w), p_title = t_title data,
                  p_description = t_description data, p_image = t_imageId data,
                  p_deletedAt = None, p_createdAt = today\<rparr>]"
  using assms
    createProduct_cache_failure_result
      [where productSchema = productSchema and data = data and w = w and n = n
         and today = today]
    createProduct_store
      [where productSchema = productSchema and data = data and w = w and today = today]
    createProduct_trx_products [of today data "store w"]
  by simp

theorem createProduct_cache_failure_is_fatal_witness:
  "ex_schema ex_plate = None
   \<and> cacheCallsLeft (ex_world\<lparr>cacheCallsLeft := Some 2\<rparr>) = Some 2
   \<and> fst (createProduct ex_schema 5 ex_plate (ex_world\<lparr>cacheCallsLeft := Some 2\<rparr>))
       = Inl ''Error creating product''
   \<and> map p_title
        (products (store (snd (createProduct ex_schema 5 ex_plate
                                 (ex_world\<lparr>cacheCallsLeft := Some 2\<rparr>)))))
       = [''Mug'', ''Vase'', ''Bowl'', ''Plate'']"
proof -
  have v: "ex_schema ex_plate = None" by (simp add: ex_schema_def ex_plate_def)
  have c: "cacheCallsLeft (ex_world\<lparr>cacheCallsLeft := Some 2\<rparr>) = Some 2" by simp
  have n: "(2::nat) < 4" by simp
  from createProduct_cache_failure_is_fatal
      [where productSchema = ex_schema and data = ex_plate and n = 2 and today = 5
         and w = "ex_world\<lparr>cacheCallsLeft := Some 2\<rparr>"] v c n
  have t: "fst (createProduct ex_schema 5 ex_plate (ex_world\<lparr>cacheCallsLeft := Some 2\<rparr>))
             = Inl ''Error creating product''"
    and p: "products (store (snd (createProduct ex_schema 5 ex_plate
                                 (ex_world\<lparr>cacheCallsLeft := Some 2\<rparr>))))
            = products (store (ex_world\<lparr>cacheCallsLeft := Some 2\<rparr>)) @
               [\<lparr>p_id = next_product_id (store (ex_world\<lparr>cacheCallsLeft := Some 2\<rparr>)),
                  p_title = t_title ex_plate, p_description = t_description ex_plate,
                  p_image = t_imageId ex_plate, p_deletedAt = None, p_createdAt = 5\<rparr>]"
    by blast+
  have q: "map p_title (products (store (ex_world\<lparr>cacheCallsLeft := Some 2\<rparr>)))
           = [''Mug'', ''Vase'', ''Bowl'']"
    by (simp add: ex_world_def ex_db_def)
  have r: "t_title ex_plate = ''Plate''" by (simp add: ex_plate_def)
  from v c t show ?thesis
    unfolding p map_append q by (simp add: r)
qed

text \<open>
  With a cache that fails at once, the accepted input gets the error response and its
  product row is in the store.
\<close>

theorem createProduct_cache_failure_counterexample:
  "ex_schema ex_plate = None
   \<and> fst (createProduct ex_schema 5 ex_plate (ex_world\<lparr>cacheCallsLeft := Some 0\<rparr>))
       = Inl ''Error creating product''
   \<and> map p_title
        (products (store (snd (createProduct ex_schema 5 ex_plate
                                 (ex_world\<lparr>cacheCallsLeft := Some 0\<rparr>)))))
       = [''Mug'', ''Vase'', ''Bowl'', ''Plate'']"
  by (simp add: createProduct_def createProduct_try_def andThen_def resolve_def
      transaction_def readStore_def cache_down createProduct_trx_def insertVariant_def
      Let_def ex_schema_def ex_plate_def ex_world_def ex_db_def)

section \<open>Listing and search: proofs\<close>

lemma listing_subset:
  "set (getProductsFromDBWithoutQuery d offset limit) \<subseteq> set (joinActive d)"
proof -
  have "set (getProductsFromDBWithoutQuery d offset limit)
        \<subseteq> set (rev (sort_key (\<lambda>g. p_id (fst g)) (joinActive d)))"
    unfolding getProductsFromDBWithoutQuery_def
    by (meson set_take_subset set_drop_subset subset_trans)
  then show ?thesis by simp
qed

lemma listing_length:
  "length (getProductsFromDBWithoutQuery d offset limit) \<le> length (joinActive d)"
  by (simp add: getProductsFromDBWithoutQuery_def)

lemma joinActive_member:
  assumes "g \<in> set (joinActive d)"
  shows "fst g \<in> set (products d)" and "p_deletedAt (fst g) = None"
    and "snd g = activeVariantsOf d (p_id (fst g))" and "snd g \<noteq> []"
  using assms by (auto simp: joinActive_def)

lemma no_active_variant:
  assumes "list_all (\<lambda>v. v_productId v = pid \<longrightarrow> v_deletedAt v \<noteq> None) (variants d)"
  shows "activeVariantsOf d pid = []"
  using assms by (auto simp: activeVariantsOf_def list_all_iff filter_empty_conv)

lemma joinActive_fewer:
  assumes "p \<in> set (products d)" and "p_deletedAt p = None"
    and "activeVariantsOf d (p_id p) = []"
  shows "int (length (joinActive d)) < getProductsCountFromDB d"
proof -
  let ?A = "filter (\<lambda>p. p_deletedAt p = None) (products d)"
  let ?f = "\<lambda>p. (p, activeVariantsOf d (p_id p))"
  from assms have "?f p \<in> set (map ?f ?A)" and "\<not> snd (?f p) \<noteq> []" by auto
  then have "length (filter (\<lambda>g. snd g \<noteq> []) (map ?f ?A)) < length (map ?f ?A)"
    by (rule length_filter_less)
  then show ?thesis by (simp add: joinActive_def getProductsCountFromDB_def)
qed

text \<open>
  Claim C10. A product that is not deleted and has no variant with a null deletion
  timestamp is on no page of the default listing, while \<^verbatim>\<open>getProductsCountFromDB\<close>
  counts every product with a null deletion timestamp, that one included. In such a
  state the count is strictly greater than the length of any page, and than the number
  of products all pages together can show.
\<close>

theorem listing_omits_product_without_active_variant:
  assumes "p \<in> set (products d)" and "p_deletedAt p = None"
    and "list_all (\<lambda>v. v_productId v = p_id p \<longrightarrow> v_deletedAt v \<noteq> None) (variants d)"
  shows "p_id p \<notin> set (map (\<lambda>g. p_id (fst g)) (getProductsFromDBWithoutQuery d offset limit))
       \<and> getProductsCountFromDB d
           = int (length (filter (\<lambda>q. p_deletedAt q = None) (products d)))
       \<and> int (length (getProductsFromDBWithoutQuery d offset limit)) < getProductsCountFromDB d
       \<and> int (length (joinActive d)) < getProductsCountFromDB d"
proof -
  from assms(3) have none: "activeVariantsOf d (p_id p) = []" by (rule no_active_variant)
  have ne: "p_id (fst g) \<noteq> p_id p"
    if "g \<in> set (getProductsFromDBWithoutQuery d offset limit)" for g
  proof
    assume eq: "p_id (fst g) = p_id p"
    from that listing_subset have "g \<in> set (joinActive d)" by blast
    from joinActive_member(3,4) [OF this] eq none show False by simp
  qed
  have a: "p_id p \<notin> set (map (\<lambda>g. p_id (fst g)) (getProductsFromDBWithoutQuery d offset limit))"
  proof
    assume "p_id p \<in> set (map (\<lambda>g. p_id (fst g)) (getProductsFromDBWithoutQuery d offset limit))"
    then obtain g where "g \<in> set (getProductsFromDBWithoutQuery d offset limit)"
      and "p_id (fst g) = p_id p" by auto
    with ne show False by blast
  qed
  have c: "int (length (joinActive d)) < getProductsCountFromDB d"
    using assms(1,2) none by (rule joinActive_fewer)
  with listing_length [of d offset limit]
  have b: "int (length (getProductsFromDBWithoutQuery d offset limit)) < getProductsCountFromDB d"
    by linarith
  from a b c show ?thesis by (simp add: getProductsCountFromDB_def)
qed

theorem listing_omits_product_without_active_variant_witness:
  "products ex_db ! 2 \<in> set (products ex_db)
   \<and> p_deletedAt (products ex_db ! 2) = None
   \<and> list_all (\<lambda>v. v_productId v = p_id (products ex_db ! 2) \<longrightarrow> v_deletedAt v \<noteq> None)
        (variants ex_db)
   \<and> p_id (products ex_db ! 2)
        \<notin> set (map (\<lambda>g. p_id (fst g)) (getProductsFromDBWithoutQuery ex_db 0 10))
   \<and> int (length (getProductsFromDBWithoutQuery ex_db 0 10)) < getProductsCountFromDB ex_db"
proof -
  have a: "products ex_db ! 2 \<in> set (products ex_db)" by (simp add: ex_db_def)
  have b: "p_deletedAt (products ex_db ! 2) = None" by (simp add: ex_db_def)
  have c: "list_all (\<lambda>v. v_productId v = p_id (products ex_db ! 2) \<longrightarrow> v_deletedAt v \<noteq> None)
        (variants ex_db)"
    by (simp add: ex_db_def ex_prev_def)
  from listing_omits_product_without_active_variant [OF a b c, of 0 10] a b c
  show ?thesis by blast
qed

lemma ex_listing:
  "getProductsFromDBWithoutQuery ex_db 0 defaultLimit = [(products ex_db ! 0, [ex_prev ! 0, ex_prev ! 1])]"
  by (simp add: getProductsFromDBWithoutQuery_def joinActive_def activeVariantsOf_def
      defaultLimit_def ex_db_def ex_prev_def)

lemma ex_count: "getProductsCountFromDB ex_db = 2"
  by (simp add: getProductsCountFromDB_def ex_db_def)


lemma getProducts_count_step:
  assumes "cacheCallsLeft w = None"
  shows "\<exists>w' t. store w' = store w \<and> productsCache w' = productsCache w
           \<and> cacheCallsLeft w' = None
           \<and> t = (if falsy (productsCountCache w) then getProductsCountFromDB (store w)
                    else counterValue (productsCountCache w))
           \<and> getProducts_try similarity query offset limit w
               = (if isBlankQuery query then
                    if offset \<noteq> 0 \<or> limit \<noteq> defaultLimit then
                      andThen (readStore (\<lambda>d. getProductsFromDBWithoutQuery d offset limit))
                        (\<lambda>rows. resolve (rows, t))
                    else
                      andThen ProductsCache_get
                      (\<lambda>cachedProducts. andThen
                         (case cachedProducts of
                            Some (g # gs) \<Rightarrow> resolve (g # gs)
                          | _ \<Rightarrow> readStore (\<lambda>d. getProductsFromDBWithoutQuery d 0 defaultLimit))
                      (\<lambda>productsDataDB. andThen
                         (if cachedProducts = None then ProductsCache_set productsDataDB
                          else resolve ())
                      (\<lambda>_. resolve (productsDataDB, t))))
                  else
                    (case query of
                       None \<Rightarrow> throw StatementRejected
                     | Some q \<Rightarrow>
                         readStore (\<lambda>d. searchProducts similarity d q offset limit))) w'"
proof (cases "falsy (productsCountCache w)")
  case True
  let ?w' = "w\<lparr>productsCountCache := Some (getProductsCountFromDB (store w))\<rparr>"
  show ?thesis
    apply (rule exI [of _ ?w'])
    apply (rule exI [of _ "getProductsCountFromDB (store w)"])
    using assms True
    apply (simp add: getProducts_try_def andThen_def cache_sound readStore_def resolve_def
        cong: if_cong)
    done
next
  case False
  show ?thesis
    apply (rule exI [of _ w])
    apply (rule exI [of _ "counterValue (productsCountCache w)"])
    using assms False
    apply (simp add: getProducts_try_def andThen_def cache_sound readStore_def resolve_def
        cong: if_cong)
    done
qed

lemma getProducts_search_result:
  assumes "\<not> isBlankQuery (Some q)" and "cacheCallsLeft w = None"
  shows "fst (getProducts similarity (Some q) offset limit w)
         = Inr (searchProducts similarity (store w) q offset limit)"
proof -
  from getProducts_count_step [OF assms(2), of similarity "Some q" offset limit]
  obtain w' where "store w' = store w"
    and "getProducts_try similarity (Some q) offset limit w
         = readStore (\<lambda>d. searchProducts similarity d q offset limit) w'"
    using assms(1) by auto
  then show ?thesis
    by (simp add: getProducts_def readStore_def)
qed

lemma getProducts_absent_query:
  assumes "cacheCallsLeft w = None"
  shows "fst (getProducts similarity None offset limit w) = Inl ''Error getting products''"
proof -
  have "\<not> isBlankQuery None" by (simp add: isBlankQuery_def)
  with getProducts_count_step [OF assms, of similarity None offset limit]
  obtain w' where "getProducts_try similarity None offset limit w = throw StatementRejected w'"
    by auto
  then show ?thesis
    by (simp add: getProducts_def throw_def)
qed


text \<open>
  Claim C7, as amended. For a query that is present and not blank, and when the calls
  to the count cache succeed, \<^verbatim>\<open>getProducts\<close> returns the rows \<open>offset * limit\<close> up to
  \<open>offset * limit + limit\<close> of a list \<open>ordered\<close> that holds, each once, the products
  that are not deleted, have at least one variant that is not deleted, and whose title
  scores strictly more than 0.3 against the query; the list is in descending order of
  score. The total is the length of that list, or 0 when the page is empty.
\<close>

theorem getProducts_search_threshold:
  assumes "\<not> isBlankQuery (Some q)" and "cacheCallsLeft w = None"
  shows "\<exists>ordered.
           fst (getProducts similarity (Some q) offset limit w)
             = Inr (take limit (drop (offset * limit) ordered),
                    if take limit (drop (offset * limit) ordered) = [] then 0
                    else int (length ordered))
         \<and> mset ordered
             = mset (filter (\<lambda>g. 3 / 10 < similarity (p_title (fst g)) q)
                       (joinActive (store w)))
         \<and> sorted (rev (map (\<lambda>g. similarity (p_title (fst g)) q) ordered))
         \<and> list_all
              (\<lambda>g. fst g \<in> set (products (store w)) \<and> p_deletedAt (fst g) = None
                 \<and> snd g = activeVariantsOf (store w) (p_id (fst g)) \<and> snd g \<noteq> []
                 \<and> 3 / 10 < similarity (p_title (fst g)) q)
              ordered"
proof -
  let ?score = "\<lambda>g. similarity (p_title (fst g)) q"
  let ?matching = "filter (\<lambda>g. 3 / 10 < ?score g) (joinActive (store w))"
  let ?ordered = "rev (sort_key ?score ?matching)"
  have 1: "fst (getProducts similarity (Some q) offset limit w)
             = Inr (take limit (drop (offset * limit) ?ordered),
                    if take limit (drop (offset * limit) ?ordered) = [] then 0
                    else int (length ?ordered))"
    unfolding getProducts_search_result [OF assms]
    by (simp add: searchProducts_def Let_def)
  have 2: "mset ?ordered = mset ?matching" by simp
  have "sorted (map ?score (sort_key ?score ?matching))" by (rule sorted_sort_key)
  then have 3: "sorted (rev (map ?score ?ordered))" by (simp add: rev_map)
  have 4: "list_all
              (\<lambda>g. fst g \<in> set (products (store w)) \<and> p_deletedAt (fst g) = None
                 \<and> snd g = activeVariantsOf (store w) (p_id (fst g)) \<and> snd g \<noteq> []
                 \<and> 3 / 10 < similarity (p_title (fst g)) q)
              ?ordered"
    unfolding list_all_iff
  proof
    fix g assume "g \<in> set ?ordered"
    then have g: "g \<in> set (joinActive (store w))" and s: "3 / 10 < ?score g" by simp_all
    from joinActive_member [OF g] s
    show "fst g \<in> set (products (store w)) \<and> p_deletedAt (fst g) = None
                 \<and> snd g = activeVariantsOf (store w) (p_id (fst g)) \<and> snd g \<noteq> []
                 \<and> 3 / 10 < similarity (p_title (fst g)) q"
      by simp
  qed
  from 1 2 3 4 show ?thesis by blast
qed

lemma ex_shop_search:
  "searchProducts ex_sim ex_shop (codeUnits ''ug'') 0 defaultLimit
   = ([(products ex_shop ! 1, [variants ex_shop ! 1])], 1)"
  by (simp add: searchProducts_def joinActive_def activeVariantsOf_def ex_sim_def codeUnits_def
      ex_shop_def defaultLimit_def Let_def)

theorem getProducts_search_threshold_witness:
  "\<not> isBlankQuery (Some (codeUnits ''ug''))
   \<and> cacheCallsLeft (ex_world\<lparr>store := ex_shop\<rparr>) = None
   \<and> map (\<lambda>p. ex_sim (p_title p) (codeUnits ''ug'')) (products ex_shop) = [1 / 4, 31 / 100, 3 / 10]
   \<and> map p_title (products ex_shop) = [''Rug'', ''Mug'', ''Jug'']
   \<and> fst (getProducts ex_sim (Some (codeUnits ''ug'')) 0 defaultLimit (ex_world\<lparr>store := ex_shop\<rparr>))
       = Inr ([(products ex_shop ! 1, [variants ex_shop ! 1])], 1)"
proof -
  have b: "\<not> isBlankQuery (Some (codeUnits ''ug''))"
    by (simp add: isBlankQuery_def trim_def isWhiteSpace_def codeUnits_def)
  have c: "cacheCallsLeft (ex_world\<lparr>store := ex_shop\<rparr>) = None"
    by (simp add: ex_world_def)
  have s: "map (\<lambda>p. ex_sim (p_title p) (codeUnits ''ug'')) (products ex_shop)
           = [1 / 4, 31 / 100, 3 / 10]"
    by (simp add: ex_sim_def codeUnits_def ex_shop_def)
  have t: "map p_title (products ex_shop) = [''Rug'', ''Mug'', ''Jug'']"
    by (simp add: ex_shop_def)
  have m: "filter (\<lambda>g. 3 / 10 < ex_sim (p_title (fst g)) (codeUnits ''ug'')) (joinActive ex_shop)
           = [(products ex_shop ! 1, [variants ex_shop ! 1])]"
    by (simp add: joinActive_def activeVariantsOf_def ex_sim_def codeUnits_def ex_shop_def)
  from getProducts_search_threshold [OF b c, of ex_sim 0 defaultLimit]
  obtain ordered where o:
    "fst (getProducts ex_sim (Some (codeUnits ''ug'')) 0 defaultLimit (ex_world\<lparr>store := ex_shop\<rparr>))
           = Inr (take defaultLimit (drop (0 * defaultLimit) ordered),
                  if take defaultLimit (drop (0 * defaultLimit) ordered) = [] then 0
                  else int (length ordered))"
    and ms: "mset ordered
             = mset (filter (\<lambda>g. 3 / 10 < ex_sim (p_title (fst g)) (codeUnits ''ug''))
                       (joinActive (store (ex_world\<lparr>store := ex_shop\<rparr>))))"
    by blast
  have st: "store (ex_world\<lparr>store := ex_shop\<rparr>) = ex_shop" by simp
  have "mset ordered = mset [(products ex_shop ! 1, [variants ex_shop ! 1])]"
    unfolding ms st m ..
  then have "ordered = [(products ex_shop ! 1, [variants ex_shop ! 1])]"
    by simp
  with o have r: "fst (getProducts ex_sim (Some (codeUnits ''ug'')) 0 defaultLimit
                        (ex_world\<lparr>store := ex_shop\<rparr>))
       = Inr ([(products ex_shop ! 1, [variants ex_shop ! 1])], 1)"
    by (simp add: defaultLimit_def)
  from b c s t r show ?thesis by (intro conjI)
qed

text \<open>
  The bowl is not deleted and scores 1 against its own title, but its only variant is
  soft-deleted: the search does not return it.
\<close>

theorem getProducts_search_skips_product_counterexample:
  "p_title (products ex_db ! 2) = ''Bowl''
   \<and> p_deletedAt (products ex_db ! 2) = None
   \<and> 3 / 10 < ex_sim ''Bowl'' (codeUnits ''Bowl'')
   \<and> fst (getProducts ex_sim (Some (codeUnits ''Bowl'')) 0 defaultLimit ex_world) = Inr ([], 0)"
proof -
  have b: "\<not> isBlankQuery (Some (codeUnits ''Bowl''))"
    by (simp add: isBlankQuery_def trim_def isWhiteSpace_def codeUnits_def)
  have c: "cacheCallsLeft ex_world = None" by (simp add: ex_world_def)
  have s: "searchProducts ex_sim (store ex_world) (codeUnits ''Bowl'') 0 defaultLimit = ([], 0)"
    by (simp add: searchProducts_def joinActive_def activeVariantsOf_def ex_sim_def codeUnits_def
        ex_world_def ex_db_def ex_prev_def defaultLimit_def Let_def)
  have "fst (getProducts ex_sim (Some (codeUnits ''Bowl'')) 0 defaultLimit ex_world) = Inr ([], 0)"
    unfolding getProducts_search_result [OF b c] s ..
  then show ?thesis by (simp add: ex_db_def ex_sim_def codeUnits_def)
qed


text \<open>
  A query of a no-break space, a space and an ideographic space is blank, like the
  empty one; a query holding a letter is not.
\<close>

lemma blank_queries:
  "isBlankQuery (Some [0xA0, 0x20, 0x3000])" "isBlankQuery (Some [])"
  "\<not> isBlankQuery (Some (codeUnits '' a ''))" "\<not> isBlankQuery None"
  by (simp_all add: isBlankQuery_def trim_def isWhiteSpace_def codeUnits_def)

lemma getProducts_blank_other_page:
  assumes "isBlankQuery query" and "offset \<noteq> 0 \<or> limit \<noteq> defaultLimit"
    and "cacheCallsLeft w = None"
  shows "fst (getProducts similarity query offset limit w)
         = Inr (getProductsFromDBWithoutQuery (store w) offset limit,
                if falsy (productsCountCache w) then getProductsCountFromDB (store w)
                else counterValue (productsCountCache w))"
    and "productsCache (snd (getProducts similarity query offset limit w)) = productsCache w"
proof -
  from getProducts_count_step [OF assms(3), of similarity query offset limit]
  obtain w' t where w': "store w' = store w" "productsCache w' = productsCache w"
    and t: "t = (if falsy (productsCountCache w) then getProductsCountFromDB (store w)
                    else counterValue (productsCountCache w))"
    and g: "getProducts_try similarity query offset limit w
         = andThen (readStore (\<lambda>d. getProductsFromDBWithoutQuery d offset limit))
                        (\<lambda>rows. resolve (rows, t)) w'"
    using assms(1,2) by auto
  from w' t g
  show "fst (getProducts similarity query offset limit w)
         = Inr (getProductsFromDBWithoutQuery (store w) offset limit,
                if falsy (productsCountCache w) then getProductsCountFromDB (store w)
                else counterValue (productsCountCache w))"
    by (simp add: getProducts_def andThen_def readStore_def resolve_def)
  from w' g
  show "productsCache (snd (getProducts similarity query offset limit w)) = productsCache w"
    by (simp add: getProducts_def andThen_def readStore_def resolve_def)
qed

lemma getProducts_blank_first_page:
  assumes "isBlankQuery query" and "cacheCallsLeft w = None"
  shows "fst (getProducts similarity query 0 defaultLimit w)
         = Inr (case productsCache w of
                  Some (g # gs) \<Rightarrow> g # gs
                | _ \<Rightarrow> getProductsFromDBWithoutQuery (store w) 0 defaultLimit,
                if falsy (productsCountCache w) then getProductsCountFromDB (store w)
                else counterValue (productsCountCache w))"
    and "productsCache (snd (getProducts similarity query 0 defaultLimit w))
         = (case productsCache w of
              None \<Rightarrow> Some (getProductsFromDBWithoutQuery (store w) 0 defaultLimit)
            | Some cached \<Rightarrow> Some cached)"
proof -
  from getProducts_count_step [OF assms(2), of similarity query 0 defaultLimit]
  obtain w' t where w': "store w' = store w" "productsCache w' = productsCache w"
      "cacheCallsLeft w' = None"
    and t: "t = (if falsy (productsCountCache w) then getProductsCountFromDB (store w)
                    else counterValue (productsCountCache w))"
    and g: "getProducts_try similarity query 0 defaultLimit w
         = andThen ProductsCache_get
                      (\<lambda>cachedProducts. andThen
                         (case cachedProducts of
                            Some (g # gs) \<Rightarrow> resolve (g # gs)
                          | _ \<Rightarrow> readStore (\<lambda>d. getProductsFromDBWithoutQuery d 0 defaultLimit))
                      (\<lambda>productsDataDB. andThen
                         (if cachedProducts = None then ProductsCache_set productsDataDB
                          else resolve ())
                      (\<lambda>_. resolve (productsDataDB, t)))) w'"
    using assms(1) by auto
  from w' t g
  show "fst (getProducts similarity query 0 defaultLimit w)
         = Inr (case productsCache w of
                  Some (g # gs) \<Rightarrow> g # gs
                | _ \<Rightarrow> getProductsFromDBWithoutQuery (store w) 0 defaultLimit,
                if falsy (productsCountCache w) then getProductsCountFromDB (store w)
                else counterValue (productsCountCache w))"
    by (simp add: getProducts_def andThen_def readStore_def resolve_def cache_sound
        split: option.split list.split)
  from w' g
  show "productsCache (snd (getProducts similarity query 0 defaultLimit w))
         = (case productsCache w of
              None \<Rightarrow> Some (getProductsFromDBWithoutQuery (store w) 0 defaultLimit)
            | Some cached \<Rightarrow> Some cached)"
    by (simp add: getProducts_def andThen_def readStore_def resolve_def cache_sound
        split: option.split list.split)
qed

text \<open>
  Claim C6, at the input where the code leaves it. With page one in the cache, a blank
  query on the default first page is answered from the cache; an absent query on the
  same page is not: \<^verbatim>\<open>query?.trim() === ""\<close> is false for \<^verbatim>\<open>undefined\<close>, so the
  action goes on to the similarity search, whose statement fails without a query, and
  the caller gets \<^verbatim>\<open>Error getting products\<close>.
\<close>

theorem getProducts_absent_query_runs_search:
  "productsCache ex_cached = Some [(products ex_db ! 0, [ex_prev ! 0, ex_prev ! 1])]
   \<and> fst (getProducts ex_sim (Some (codeUnits '' '')) 0 defaultLimit ex_cached)
       = Inr ([(products ex_db ! 0, [ex_prev ! 0, ex_prev ! 1])], 2)
   \<and> fst (getProducts ex_sim None 0 defaultLimit ex_cached) = Inl ''Error getting products''"
proof -
  have c: "cacheCallsLeft ex_cached = None" by (simp add: ex_cached_def ex_world_def)
  have p: "productsCache ex_cached = Some [(products ex_db ! 0, [ex_prev ! 0, ex_prev ! 1])]"
    by (simp add: ex_cached_def)
  have n: "productsCountCache ex_cached = Some 2" by (simp add: ex_cached_def)
  have b: "isBlankQuery (Some (codeUnits '' ''))"
    by (simp add: isBlankQuery_def trim_def isWhiteSpace_def codeUnits_def)
  have 1: "fst (getProducts ex_sim (Some (codeUnits '' '')) 0 defaultLimit ex_cached)
       = Inr ([(products ex_db ! 0, [ex_prev ! 0, ex_prev ! 1])], 2)"
    unfolding getProducts_blank_first_page(1) [OF b c] p n
    by (simp add: falsy_def counterValue_def)
  have 2: "fst (getProducts ex_sim None 0 defaultLimit ex_cached)
           = Inl ''Error getting products''"
    using c by (rule getProducts_absent_query)
  from p 1 2 show ?thesis by (intro conjI)
qed


section \<open>Sale aggregation: proofs\<close>

lemma getProductVariants_rows:
  "getProductVariants d pid =
     Inr (sort_key (\<lambda>r. sql_order_key (ps_size r))
            (map (saleRow d) (filter (\<lambda>v. v_productId v = pid) (variants d))))"
  by (simp add: getProductVariants_def)

text \<open>
  Claim C8, as amended. \<^verbatim>\<open>getProductVariants\<close> returns one row for every variant of
  the product, soft-deleted or not: its \<^verbatim>\<open>WHERE\<close> clause only compares the product
  id. The rows are ordered by ascending size. A row carries the variant's id, size,
  stock and price; for a variant without purchase items \<open>sold\<close> and \<open>revenue\<close> are null,
  otherwise they are the sum of the quantities and the sum of quantity times price over
  its purchase items.
\<close>

theorem getProductVariants_every_variant:
  "\<exists>rows. getProductVariants d pid = Inr rows
     \<and> mset rows = mset (map (saleRow d) (filter (\<lambda>v. v_productId v = pid) (variants d)))
     \<and> sorted (map (\<lambda>r. sql_order_key (ps_size r)) rows)
     \<and> list_all (\<lambda>v. v_productId v = pid \<longrightarrow> saleRow d v \<in> set rows) (variants d)
     \<and> list_all
          (\<lambda>v. ps_id (saleRow d v) = v_id v \<and> ps_size (saleRow d v) = v_size v
             \<and> ps_stock (saleRow d v) = v_quantity v \<and> ps_price (saleRow d v) = v_price v
             \<and> ps_sold (saleRow d v)
                 = (if filter (\<lambda>i. pi_variantId i = v_id v) (purchaseItems d) = [] then None
                    else Some (\<Sum>i\<leftarrow>filter (\<lambda>i. pi_variantId i = v_id v) (purchaseItems d).
                                 pi_quantity i))
             \<and> ps_revenue (saleRow d v)
                 = (if filter (\<lambda>i. pi_variantId i = v_id v) (purchaseItems d) = [] then None
                    else Some (\<Sum>i\<leftarrow>filter (\<lambda>i. pi_variantId i = v_id v) (purchaseItems d).
                                 pi_quantity i * pi_price i)))
          (variants d)"
proof -
  let ?rows = "sort_key (\<lambda>r. sql_order_key (ps_size r))
            (map (saleRow d) (filter (\<lambda>v. v_productId v = pid) (variants d)))"
  have 1: "getProductVariants d pid = Inr ?rows" by (rule getProductVariants_rows)
  have 2: "mset ?rows = mset (map (saleRow d) (filter (\<lambda>v. v_productId v = pid) (variants d)))"
    by simp
  have 3: "sorted (map (\<lambda>r. sql_order_key (ps_size r)) ?rows)"
    by (rule sorted_sort_key)
  have 4: "list_all (\<lambda>v. v_productId v = pid \<longrightarrow> saleRow d v \<in> set ?rows) (variants d)"
    by (simp add: list_all_iff)
  have 5: "list_all
          (\<lambda>v. ps_id (saleRow d v) = v_id v \<and> ps_size (saleRow d v) = v_size v
             \<and> ps_stock (saleRow d v) = v_quantity v \<and> ps_price (saleRow d v) = v_price v
             \<and> ps_sold (saleRow d v)
                 = (if filter (\<lambda>i. pi_variantId i = v_id v) (purchaseItems d) = [] then None
                    else Some (\<Sum>i\<leftarrow>filter (\<lambda>i. pi_variantId i = v_id v) (purchaseItems d).
                                 pi_quantity i))
             \<and> ps_revenue (saleRow d v)
                 = (if filter (\<lambda>i. pi_variantId i = v_id v) (purchaseItems d) = [] then None
                    else Some (\<Sum>i\<leftarrow>filter (\<lambda>i. pi_variantId i = v_id v) (purchaseItems d).
                                 pi_quantity i * pi_price i)))
          (variants d)"
    by (simp add: list_all_iff saleRow_def Let_def)
  from 1 2 3 4 5 show ?thesis by blast
qed

theorem getProductVariants_every_variant_witness:
  "(\<exists>rows. getProductVariants ex_db 9 = Inr rows
      \<and> list_all (\<lambda>v. v_productId v = 9 \<longrightarrow> saleRow ex_db v \<in> set rows) (variants ex_db))
   \<and> getProductVariants ex_db 9
       = Inr [\<lparr>ps_id = 5, ps_size = Num 3, ps_stock = Num 0, ps_price = Num 80,
               ps_sold = None, ps_revenue = None\<rparr>]"
proof -
  have e: "getProductVariants ex_db 9
       = Inr [\<lparr>ps_id = 5, ps_size = Num 3, ps_stock = Num 0, ps_price = Num 80,
               ps_sold = None, ps_revenue = None\<rparr>]"
    by (simp add: getProductVariants_def saleRow_def ex_db_def ex_prev_def)
  from getProductVariants_every_variant [of ex_db 9] e show ?thesis by blast
qed

text \<open>
  The mug's variant of size 10 is soft-deleted and has no purchase item; it has a row,
  with null aggregates.
\<close>

theorem getProductVariants_soft_deleted_counterexample:
  "v_productId (variants ex_db ! 2) = 7
   \<and> v_deletedAt (variants ex_db ! 2) = Some 3
   \<and> getProductVariants ex_db 7
       = Inr [\<lparr>ps_id = 1, ps_size = Num 8, ps_stock = Num 5, ps_price = Num 100,
               ps_sold = Some 3, ps_revenue = Some 295\<rparr>,
              \<lparr>ps_id = 2, ps_size = Num 9, ps_stock = Num 2, ps_price = Num 120,
               ps_sold = Some 3, ps_revenue = Some 360\<rparr>,
              \<lparr>ps_id = 3, ps_size = Num 10, ps_stock = Num 1, ps_price = Num 150,
               ps_sold = None, ps_revenue = None\<rparr>]"
  by (simp add: getProductVariants_def saleRow_def sql_order_key_def ex_db_def ex_prev_def)


section \<open>Update transaction: proofs\<close>

lemma transactionOrRollback_andThen_store:
  assumes "\<And>x. keepsStore (f x)"
  shows "store (snd (andThen (transactionOrRollback t) f w))
         = (case t (store w) of Inl e \<Rightarrow> store w | Inr d \<Rightarrow> d)"
proof (cases "t (store w)")
  case (Inl e)
  then show ?thesis by (simp add: andThen_def transactionOrRollback_def)
next
  case (Inr d)
  from assms [of "()"] have "store (snd (f () (w\<lparr>store := d\<rparr>))) = d"
    unfolding keepsStore_def by simp
  with Inr show ?thesis by (simp add: andThen_def transactionOrRollback_def)
qed

lemma updateProduct_store:
  "store (snd (updateProduct today data pid w))
   = (case updateProduct_trx today data pid (store w) of Inl e \<Rightarrow> store w | Inr d \<Rightarrow> d)"
proof -
  have "store (snd (updateProduct_try today data pid w))
        = (case updateProduct_trx today data pid (store w) of Inl e \<Rightarrow> store w | Inr d \<Rightarrow> d)"
    unfolding updateProduct_try_def
    by (subst transactionOrRollback_andThen_store) (intro keepsStore_intros, simp)
  then show ?thesis
    by (auto simp: updateProduct_def split: prod.split sum.split)
qed

lemma updateProduct_trx_aborts:
  assumes "noValuesToSet data"
  shows "updateProduct_trx today data pid d = Inl NoValuesToSet"
  using assms by (simp add: updateProduct_trx_def Let_def)

lemma updateProduct_without_product_field:
  assumes "noValuesToSet data"
  shows "fst (updateProduct today data pid w) = Inl ''Error updating product''"
    and "store (snd (updateProduct today data pid w)) = store w"
proof -
  from assms have "updateProduct_try today data pid w = (Inl NoValuesToSet, w)"
    by (simp add: updateProduct_try_def andThen_def transactionOrRollback_def
        updateProduct_trx_aborts)
  then show "fst (updateProduct today data pid w) = Inl ''Error updating product''"
    by (simp add: updateProduct_def)
  from assms show "store (snd (updateProduct today data pid w)) = store w"
    by (simp add: updateProduct_store updateProduct_trx_aborts)
qed

lemma variants_updateProductRow: "variants (updateProductRow data pid d) = variants d"
  by (simp add: updateProductRow_def)

lemma variants_insertAdded1:
  "\<exists>row. variants (insertAdded pid a d) = variants d @ [row]"
  by (simp add: insertAdded_def insertVariant_def Let_def)

lemma variants_insertAdded:
  "\<exists>rows. variants (fold (insertAdded pid) added d) = variants d @ rows"
proof (induction added arbitrary: d)
  case Nil
  show ?case by simp
next
  case (Cons a added)
  from Cons [of "insertAdded pid a d"] obtain rows where
    1: "variants (fold (insertAdded pid) added (insertAdded pid a d))
     = variants (insertAdded pid a d) @ rows" by blast
  from variants_insertAdded1 [of pid a d] obtain row where
    2: "variants (insertAdded pid a d) = variants d @ [row]" by blast
  have "variants (fold (insertAdded pid) (a # added) d) = variants d @ (row # rows)"
    using 1 unfolding 2 by simp
  then show ?case by blast
qed

lemma variants_applyUpdated:
  "variants (fold (applyUpdated pid) us d) = map (fold (updatedRow pid) us) (variants d)"
  by (induction us arbitrary: d) (simp_all add: applyUpdated_def comp_def)

lemma variants_applyRemoved:
  "variants (fold (applyRemoved today pid) rs d)
   = map (fold (removedRow today pid) rs) (variants d)"
  by (induction rs arbitrary: d) (simp_all add: applyRemoved_def comp_def)

lemma updateProduct_trx_row:
  assumes "i < length (variants d)" and "\<not> noValuesToSet data"
  shows "\<exists>d'. updateProduct_trx today data pid d = Inr d'
           \<and> variants d' ! i
               = fold (removedRow today pid)
                   (removedVariants (filter (\<lambda>v. v_productId v = pid) (variants d))
                      (case pt_variants data of None \<Rightarrow> [] | Some vs \<Rightarrow> vs))
                   (fold (updatedRow pid)
                      (updatedVariants (filter (\<lambda>v. v_productId v = pid) (variants d))
                         (case pt_variants data of None \<Rightarrow> [] | Some vs \<Rightarrow> vs))
                      (variants d ! i))"
proof -
  let ?prev = "filter (\<lambda>v. v_productId v = pid) (variants d)"
  let ?cur = "case pt_variants data of None \<Rightarrow> [] | Some vs \<Rightarrow> vs"
  let ?d' = "fold (applyRemoved today pid) (removedVariants ?prev ?cur)
               (fold (applyUpdated pid) (updatedVariants ?prev ?cur)
                  (fold (insertAdded pid) (addedVariants ?prev ?cur)
                     (updateProductRow data pid d)))"
  obtain rows where r:
    "variants (fold (insertAdded pid) (addedVariants ?prev ?cur) (updateProductRow data pid d))
     = variants d @ rows"
    using variants_insertAdded [of pid "addedVariants ?prev ?cur" "updateProductRow data pid d"]
    by (auto simp: variants_updateProductRow)
  have t: "updateProduct_trx today data pid d = Inr ?d'"
    using assms(2) by (simp add: updateProduct_trx_def Let_def)
  have "variants ?d'
        = map (fold (removedRow today pid) (removedVariants ?prev ?cur))
            (map (fold (updatedRow pid) (updatedVariants ?prev ?cur)) (variants d @ rows))"
    by (simp add: variants_applyRemoved variants_applyUpdated r)
  with assms(1) have "variants ?d' ! i
        = fold (removedRow today pid) (removedVariants ?prev ?cur)
            (fold (updatedRow pid) (updatedVariants ?prev ?cur) (variants d ! i))"
    by (simp add: nth_append)
  with t show ?thesis by blast
qed

lemma fold_removedRow_other:
  assumes "\<forall>r\<in>set rs. v_size r \<noteq> v_size x"
  shows "fold (removedRow today pid) rs x = x"
proof -
  have "removedRow today pid r x = x" if "v_size r \<noteq> v_size x" for r
    using that by (auto simp: removedRow_def sql_eq_def)
  with assms show ?thesis by (induction rs) simp_all
qed

lemma fold_updatedRow_other:
  assumes "\<forall>u\<in>set us. tv_size u \<noteq> v_size x"
  shows "fold (updatedRow pid) us x = x"
proof -
  have "updatedRow pid u x = x" if "tv_size u \<noteq> v_size x" for u
    using that by (auto simp: updatedRow_def sql_eq_def)
  with assms show ?thesis by (induction us) simp_all
qed

lemma fold_updatedRow_done:
  assumes "\<forall>u\<in>set us. tv_size u = v_size x \<longrightarrow> u = c" and "tv_size c = v_size x"
  shows "fold (updatedRow pid) us
           (x\<lparr>v_quantity := tv_quantity c, v_price := tv_price c, v_deletedAt := None\<rparr>)
         = x\<lparr>v_quantity := tv_quantity c, v_price := tv_price c, v_deletedAt := None\<rparr>"
  using assms(1)
proof (induction us)
  case Nil
  show ?case by simp
next
  case (Cons u us)
  let ?t = "x\<lparr>v_quantity := tv_quantity c, v_price := tv_price c, v_deletedAt := None\<rparr>"
  have step: "updatedRow pid u ?t = ?t"
  proof (cases "tv_size u = v_size x")
    case True
    with Cons.prems have "u = c" by simp
    then show ?thesis using assms(2) by (simp add: updatedRow_def)
  next
    case False
    then have "\<not> sql_eq (v_size ?t) (tv_size u)" by (auto simp: sql_eq_def)
    then show ?thesis by (simp only: updatedRow_def) simp
  qed
  from Cons.prems have rest: "\<forall>u\<in>set us. tv_size u = v_size x \<longrightarrow> u = c" by simp
  have "fold (updatedRow pid) (u # us) ?t = fold (updatedRow pid) us (updatedRow pid u ?t)"
    by simp
  also have "\<dots> = fold (updatedRow pid) us ?t" by (simp only: step)
  also have "\<dots> = ?t" using rest by (rule Cons.IH)
  finally show ?case .
qed

lemma fold_updatedRow_same:
  assumes "v_productId x = pid"
    and "\<forall>u\<in>set us. tv_size u = v_size x \<longrightarrow> u = c"
    and "tv_size c = v_size x" and "c \<in> set us"
  shows "fold (updatedRow pid) us x
         = x\<lparr>v_quantity := tv_quantity c, v_price := tv_price c, v_deletedAt := None\<rparr>"
  using assms(2,4)
proof (induction us)
  case Nil
  then show ?case by simp
next
  case (Cons u us)
  let ?t = "x\<lparr>v_quantity := tv_quantity c, v_price := tv_price c, v_deletedAt := None\<rparr>"
  from Cons.prems(1) have rest: "\<forall>u\<in>set us. tv_size u = v_size x \<longrightarrow> u = c" by simp
  have unfold: "fold (updatedRow pid) (u # us) x = fold (updatedRow pid) us (updatedRow pid u x)"
    by simp
  show ?case
  proof (cases "tv_size u = v_size x")
    case True
    with Cons.prems(1) have "u = c" by simp
    with assms(1,3) have step: "updatedRow pid u x = ?t"
      by (simp add: updatedRow_def sql_eq_def)
    have "fold (updatedRow pid) us ?t = ?t"
      using rest assms(3) by (rule fold_updatedRow_done)
    with unfold step show ?thesis by (simp only:)
  next
    case False
    with assms(3) have "u \<noteq> c" by auto
    with Cons.prems(2) have "c \<in> set us" by simp
    with rest have ih: "fold (updatedRow pid) us x = ?t" by (rule Cons.IH)
    from False have "\<not> sql_eq (v_size x) (tv_size u)" by (auto simp: sql_eq_def)
    then have "updatedRow pid u x = x" by (simp only: updatedRow_def) simp
    with unfold ih show ?thesis by (simp only:)
  qed
qed

lemma find_unique:
  assumes "x \<in> set xs" and "P x" and "\<forall>y\<in>set xs. P y \<longrightarrow> y = x"
  shows "find P xs = Some x"
  using assms(1,3)
proof (induction xs)
  case Nil
  then show ?case by simp
next
  case (Cons y ys)
  show ?case
  proof (cases "P y")
    case True
    with Cons.prems(2) have "y = x" by simp
    with assms(2) show ?thesis by simp
  next
    case False
    with assms(2) have "y \<noteq> x" by blast
    with Cons.prems have "x \<in> set ys" and "\<forall>y\<in>set ys. P y \<longrightarrow> y = x" by simp_all
    then have "find P ys = Some x" by (rule Cons.IH)
    with False show ?thesis by simp
  qed
qed

lemma removed_misses_submitted_size:
  assumes "c \<in> set cur" and "strict_eq (v_size x) (tv_size c)"
  shows "\<forall>r\<in>set (removedVariants prev cur). v_size r \<noteq> v_size x"
proof
  fix r assume r: "r \<in> set (removedVariants prev cur)"
  show "v_size r \<noteq> v_size x"
  proof
    assume "v_size r = v_size x"
    with assms(2) have "strict_eq (tv_size c) (v_size r)" by (simp add: strict_eq_def)
    with assms(1) r show False by (auto simp: removedVariants_def list_ex_iff)
  qed
qed


lemma first_match_is_row:
  assumes "x \<in> set rows" and "v_productId x = pid"
    and "\<forall>u\<in>set rows. v_productId u = pid \<and> strict_eq (v_size u) (v_size x) \<longrightarrow> u = x"
    and "strict_eq (v_size x) (tv_size c)"
  shows "find (\<lambda>p. strict_eq (v_size p) (tv_size c)) (filter (\<lambda>v. v_productId v = pid) rows)
         = Some x"
proof (rule find_unique)
  from assms(1,2) show "x \<in> set (filter (\<lambda>v. v_productId v = pid) rows)" by simp
  from assms(4) show "strict_eq (v_size x) (tv_size c)" .
  show "\<forall>y\<in>set (filter (\<lambda>v. v_productId v = pid) rows).
          strict_eq (v_size y) (tv_size c) \<longrightarrow> y = x"
  proof (intro ballI impI)
    fix y assume y: "y \<in> set (filter (\<lambda>v. v_productId v = pid) rows)"
      and m: "strict_eq (v_size y) (tv_size c)"
    from assms(4) have "strict_eq (tv_size c) (v_size x)" by (simp add: strict_eq_sym)
    with m have "strict_eq (v_size y) (v_size x)" by (rule strict_eq_trans)
    with y assms(3) show "y = x" by simp
  qed
qed

text \<open>
  Claim C2, as amended. Let a row of the product hold size \<open>s\<close> and be the product's
  only row of that size; let the update supply a title, a description or an image, and
  let its list hold an entry of size \<open>s\<close>, with a price or a quantity other than the
  stored one, that every entry of size \<open>s\<close> in the list equals. After
  \<^verbatim>\<open>updateProduct\<close> the row has a null deletion timestamp and the price and quantity
  of that entry; its other fields are as before. This holds for every such row, a
  soft-deleted one in particular.
\<close>

theorem updateProduct_undeletes_updated_variant:
  assumes idx: "i < length (variants (store w))"
    and row: "v = variants (store w) ! i"
    and own: "v_productId v = pid"
    and only_row: "\<forall>u\<in>set (variants (store w)).
           v_productId u = pid \<and> strict_eq (v_size u) (v_size v) \<longrightarrow> u = v"
    and field: "truthy (pt_title data) \<or> truthy (pt_description data)
                \<or> truthy (pt_imageId data)"
    and list: "pt_variants data = Some D"
    and entry: "c \<in> set D"
    and same_size: "strict_eq (v_size v) (tv_size c)"
    and differs: "\<not> strict_eq (v_price v) (tv_price c)
                  \<or> \<not> strict_eq (v_quantity v) (tv_quantity c)"
    and only_entry: "\<forall>e\<in>set D. strict_eq (tv_size e) (tv_size c) \<longrightarrow> e = c"
  shows "variants (store (snd (updateProduct today data pid w))) ! i
         = v\<lparr>v_quantity := tv_quantity c, v_price := tv_price c, v_deletedAt := None\<rparr>
       \<and> v_deletedAt (variants (store (snd (updateProduct today data pid w))) ! i) = None
       \<and> v_price (variants (store (snd (updateProduct today data pid w))) ! i) = tv_price c
       \<and> v_quantity (variants (store (snd (updateProduct today data pid w))) ! i)
           = tv_quantity c"
proof -
  let ?prev = "filter (\<lambda>v. v_productId v = pid) (variants (store w))"
  from idx row have mem: "v \<in> set (variants (store w))" by simp
  from same_size have size: "tv_size c = v_size v" and num: "v_size v \<noteq> NaN"
    by (simp_all add: strict_eq_def)
  have "find (\<lambda>p. strict_eq (v_size p) (tv_size c)) ?prev = Some v"
    using mem own only_row same_size by (rule first_match_is_row)
  with differs have "isUpdated ?prev c" by (simp add: isUpdated_def)
  with entry have upd: "c \<in> set (updatedVariants ?prev D)"
    by (simp add: updatedVariants_def)
  have only: "\<forall>u\<in>set (updatedVariants ?prev D). tv_size u = v_size v \<longrightarrow> u = c"
  proof (intro ballI impI)
    fix u assume "u \<in> set (updatedVariants ?prev D)" and "tv_size u = v_size v"
    then have "u \<in> set D" and "strict_eq (tv_size u) (tv_size c)"
      using size num by (simp_all add: updatedVariants_def strict_eq_def)
    with only_entry show "u = c" by simp
  qed
  let ?t = "v\<lparr>v_quantity := tv_quantity c, v_price := tv_price c, v_deletedAt := None\<rparr>"
  have u: "fold (updatedRow pid) (updatedVariants ?prev D) v = ?t"
    using own only size upd by (rule fold_updatedRow_same)
  have "\<forall>r\<in>set (removedVariants ?prev D). v_size r \<noteq> v_size v"
    using entry same_size by (rule removed_misses_submitted_size)
  then have "\<forall>r\<in>set (removedVariants ?prev D). v_size r \<noteq> v_size ?t" by simp
  then have r: "fold (removedRow today pid) (removedVariants ?prev D) ?t = ?t"
    by (rule fold_removedRow_other)
  from field have runs: "\<not> noValuesToSet data" by (auto simp: noValuesToSet_def)
  from updateProduct_trx_row [OF idx runs, of today pid] obtain d' where
    d': "updateProduct_trx today data pid (store w) = Inr d'"
    and at: "variants d' ! i
        = fold (removedRow today pid) (removedVariants ?prev D)
            (fold (updatedRow pid) (updatedVariants ?prev D) v)"
    using row list by auto
  from d' have "store (snd (updateProduct today data pid w)) = d'"
    by (simp add: updateProduct_store)
  with at u r show ?thesis by simp
qed

text \<open>
  Claim C9, as amended. Let a soft-deleted row of the product hold size \<open>s\<close> and be the
  product's only row of that size, and let the submitted list hold an entry of size
  \<open>s\<close>, with the stored price and quantity, that every entry of size \<open>s\<close> in the list
  equals. Then the entry is not among the updated variants, the row is after
  \<^verbatim>\<open>updateProduct\<close> what it was before, deletion timestamp included, and no page of
  the listing shows it.
\<close>

theorem updateProduct_keeps_unchanged_variant_deleted:
  assumes idx: "i < length (variants (store w))"
    and row: "v = variants (store w) ! i"
    and own: "v_productId v = pid"
    and deleted: "v_deletedAt v = Some t"
    and only_row: "\<forall>u\<in>set (variants (store w)).
           v_productId u = pid \<and> strict_eq (v_size u) (v_size v) \<longrightarrow> u = v"
    and list: "pt_variants data = Some D"
    and entry: "c \<in> set D"
    and same_size: "strict_eq (v_size v) (tv_size c)"
    and same_price: "strict_eq (v_price v) (tv_price c)"
    and same_quantity: "strict_eq (v_quantity v) (tv_quantity c)"
    and only_entry: "\<forall>e\<in>set D. strict_eq (tv_size e) (tv_size c) \<longrightarrow> e = c"
  shows "c \<notin> set (updatedVariants (filter (\<lambda>v. v_productId v = pid) (variants (store w))) D)
       \<and> variants (store (snd (updateProduct today data pid w))) ! i = v
       \<and> v_deletedAt (variants (store (snd (updateProduct today data pid w))) ! i) = Some t
       \<and> list_all
            (\<lambda>g. variants (store (snd (updateProduct today data pid w))) ! i \<notin> set (snd g))
            (getProductsFromDBWithoutQuery (store (snd (updateProduct today data pid w)))
               offset limit)"
proof -
  let ?prev = "filter (\<lambda>v. v_productId v = pid) (variants (store w))"
  let ?d' = "store (snd (updateProduct today data pid w))"
  from idx row have mem: "v \<in> set (variants (store w))" by simp
  from same_size have size: "tv_size c = v_size v" and num: "v_size v \<noteq> NaN"
    by (simp_all add: strict_eq_def)
  have "find (\<lambda>p. strict_eq (v_size p) (tv_size c)) ?prev = Some v"
    using mem own only_row same_size by (rule first_match_is_row)
  with same_price same_quantity have notupd: "\<not> isUpdated ?prev c"
    by (simp add: isUpdated_def)
  then have a: "c \<notin> set (updatedVariants ?prev D)" by (simp add: updatedVariants_def)
  have none: "\<forall>u\<in>set (updatedVariants ?prev D). tv_size u \<noteq> v_size v"
  proof (intro ballI notI)
    fix u assume u: "u \<in> set (updatedVariants ?prev D)" and "tv_size u = v_size v"
    then have "u \<in> set D" and "strict_eq (tv_size u) (tv_size c)"
      using size num by (simp_all add: updatedVariants_def strict_eq_def)
    with only_entry have "u = c" by simp
    with u a show False by simp
  qed
  then have u: "fold (updatedRow pid) (updatedVariants ?prev D) v = v"
    by (rule fold_updatedRow_other)
  have "\<forall>r\<in>set (removedVariants ?prev D). v_size r \<noteq> v_size v"
    using entry same_size by (rule removed_misses_submitted_size)
  then have r: "fold (removedRow today pid) (removedVariants ?prev D) v = v"
    by (rule fold_removedRow_other)
  have b: "variants ?d' ! i = v"
  proof (cases "noValuesToSet data")
    case True
    then have "?d' = store w" by (rule updateProduct_without_product_field(2))
    with row show ?thesis by simp
  next
    case False
    from updateProduct_trx_row [OF idx False, of today pid] obtain d' where
      d': "updateProduct_trx today data pid (store w) = Inr d'"
      and at: "variants d' ! i
          = fold (removedRow today pid) (removedVariants ?prev D)
              (fold (updatedRow pid) (updatedVariants ?prev D) v)"
      using row list by auto
    from d' have "?d' = d'" by (simp add: updateProduct_store)
    with at u r show ?thesis by simp
  qed
  with deleted have c: "v_deletedAt (variants ?d' ! i) = Some t" by simp
  have d: "list_all (\<lambda>g. variants ?d' ! i \<notin> set (snd g))
            (getProductsFromDBWithoutQuery ?d' offset limit)"
    unfolding list_all_iff
  proof
    fix g assume "g \<in> set (getProductsFromDBWithoutQuery ?d' offset limit)"
    with listing_subset have "g \<in> set (joinActive ?d')" by blast
    then have "snd g = activeVariantsOf ?d' (p_id (fst g))" by (rule joinActive_member(3))
    then have "\<forall>x\<in>set (snd g). v_deletedAt x = None" by (simp add: activeVariantsOf_def)
    with c show "variants ?d' ! i \<notin> set (snd g)" by auto
  qed
  from a b c d show ?thesis by (intro conjI)
qed

lemma ex_row2:
  "variants (store ex_world) ! 2
   = \<lparr>v_id = 3, v_productId = 7, v_price = Num 150, v_quantity = Num 1, v_size = Num 10,
      v_deletedAt = Some 3\<rparr>"
  by (simp add: ex_world_def ex_db_def ex_prev_def)

lemma ex_row2_only:
  "\<forall>u\<in>set (variants (store ex_world)).
     v_productId u = 7 \<and> strict_eq (v_size u) (v_size (variants (store ex_world) ! 2))
     \<longrightarrow> u = variants (store ex_world) ! 2"
  by (simp add: ex_world_def ex_db_def ex_prev_def strict_eq_def)

theorem updateProduct_undeletes_updated_variant_witness:
  "2 < length (variants (store ex_world))
   \<and> v_deletedAt (variants (store ex_world) ! 2) = Some 3
   \<and> v_price (variants (store ex_world) ! 2) = Num 150
   \<and> variants (store (snd (updateProduct 5 ex_reprice 7 ex_world))) ! 2
       = \<lparr>v_id = 3, v_productId = 7, v_price = Num 175, v_quantity = Num 1, v_size = Num 10,
          v_deletedAt = None\<rparr>"
proof -
  let ?D = "[\<lparr>tv_size = Num 8, tv_price = Num 100, tv_quantity = Num 5\<rparr>,
         \<lparr>tv_size = Num 9, tv_price = Num 120, tv_quantity = Num 2\<rparr>,
         \<lparr>tv_size = Num 10, tv_price = Num 175, tv_quantity = Num 1\<rparr>]"
  let ?c = "\<lparr>tv_size = Num 10, tv_price = Num 175, tv_quantity = Num 1\<rparr>"
  have 1: "2 < length (variants (store ex_world))"
    by (simp add: ex_world_def ex_db_def ex_prev_def)
  have 3: "v_productId (variants (store ex_world) ! 2) = 7" by (simp add: ex_row2)
  have 4: "truthy (pt_title ex_reprice) \<or> truthy (pt_description ex_reprice)
           \<or> truthy (pt_imageId ex_reprice)"
    by (simp add: ex_reprice_def truthy_def)
  have 5: "pt_variants ex_reprice = Some ?D" by (simp add: ex_reprice_def)
  have 6: "?c \<in> set ?D" by simp
  have 7: "strict_eq (v_size (variants (store ex_world) ! 2)) (tv_size ?c)"
    by (simp add: ex_row2 strict_eq_def)
  have 8: "\<not> strict_eq (v_price (variants (store ex_world) ! 2)) (tv_price ?c)
           \<or> \<not> strict_eq (v_quantity (variants (store ex_world) ! 2)) (tv_quantity ?c)"
    by (simp add: ex_row2 strict_eq_def)
  have 9: "\<forall>e\<in>set ?D. strict_eq (tv_size e) (tv_size ?c) \<longrightarrow> e = ?c"
    by (simp add: strict_eq_def)
  from updateProduct_undeletes_updated_variant [OF 1 refl 3 ex_row2_only 4 5 6 7 8 9, of 5]
  have "variants (store (snd (updateProduct 5 ex_reprice 7 ex_world))) ! 2
        = (variants (store ex_world) ! 2)
            \<lparr>v_quantity := tv_quantity ?c, v_price := tv_price ?c, v_deletedAt := None\<rparr>"
    by (rule conjunct1)
  then have r: "variants (store (snd (updateProduct 5 ex_reprice 7 ex_world))) ! 2
       = \<lparr>v_id = 3, v_productId = 7, v_price = Num 175, v_quantity = Num 1, v_size = Num 10,
          v_deletedAt = None\<rparr>"
    by (simp add: ex_row2)
  from 1 r show ?thesis by (simp add: ex_row2)
qed

theorem updateProduct_keeps_unchanged_variant_deleted_witness:
  "2 < length (variants (store ex_world))
   \<and> v_deletedAt (variants (store ex_world) ! 2) = Some 3
   \<and> variants (store (snd (updateProduct 5 ex_resubmit 7 ex_world))) ! 2
       = \<lparr>v_id = 3, v_productId = 7, v_price = Num 150, v_quantity = Num 1, v_size = Num 10,
          v_deletedAt = Some 3\<rparr>"
proof -
  let ?D = "[\<lparr>tv_size = Num 8, tv_price = Num 100, tv_quantity = Num 5\<rparr>,
         \<lparr>tv_size = Num 9, tv_price = Num 120, tv_quantity = Num 2\<rparr>,
         \<lparr>tv_size = Num 10, tv_price = Num 150, tv_quantity = Num 1\<rparr>]"
  let ?c = "\<lparr>tv_size = Num 10, tv_price = Num 150, tv_quantity = Num 1\<rparr>"
  have 1: "2 < length (variants (store ex_world))"
    by (simp add: ex_world_def ex_db_def ex_prev_def)
  have 3: "v_productId (variants (store ex_world) ! 2) = 7" by (simp add: ex_row2)
  have 4: "v_deletedAt (variants (store ex_world) ! 2) = Some 3" by (simp add: ex_row2)
  have 5: "pt_variants ex_resubmit = Some ?D" by (simp add: ex_resubmit_def)
  have 6: "?c \<in> set ?D" by simp
  have 7: "strict_eq (v_size (variants (store ex_world) ! 2)) (tv_size ?c)"
    by (simp add: ex_row2 strict_eq_def)
  have 8: "strict_eq (v_price (variants (store ex_world) ! 2)) (tv_price ?c)"
    by (simp add: ex_row2 strict_eq_def)
  have 9: "strict_eq (v_quantity (variants (store ex_world) ! 2)) (tv_quantity ?c)"
    by (simp add: ex_row2 strict_eq_def)
  have 10: "\<forall>e\<in>set ?D. strict_eq (tv_size e) (tv_size ?c) \<longrightarrow> e = ?c"
    by (simp add: strict_eq_def)
  from updateProduct_keeps_unchanged_variant_deleted
    [OF 1 refl 3 4 ex_row2_only 5 6 7 8 9 10, of 5 0 10]
  have "variants (store (snd (updateProduct 5 ex_resubmit 7 ex_world))) ! 2
        = variants (store ex_world) ! 2"
    by blast
  with 1 4 show ?thesis by (simp add: ex_row2)
qed

text \<open>
  Against C2 as stated: the mug has two soft-deleted rows of size 10, at prices 150 and
  175, and the update submits size 10 at price 150. The lookup finds the row at 150
  first, takes the entry for unchanged, and the row at 175, whose stored price differs
  from the submitted one, stays deleted at its old price, although the update succeeds.
\<close>

theorem updateProduct_twin_row_stays_deleted_counterexample:
  "variants (store ex_twin_world) ! 1
     = \<lparr>v_id = 2, v_productId = 7, v_price = Num 175, v_quantity = Num 1, v_size = Num 10,
        v_deletedAt = Some 3\<rparr>
   \<and> pt_variants ex_relist
       = Some [\<lparr>tv_size = Num 10, tv_price = Num 150, tv_quantity = Num 1\<rparr>]
   \<and> fst (updateProduct 5 ex_relist 7 ex_twin_world) = Inr ''Product updated successfully''
   \<and> variants (store (snd (updateProduct 5 ex_relist 7 ex_twin_world))) ! 1
       = \<lparr>v_id = 2, v_productId = 7, v_price = Num 175, v_quantity = Num 1, v_size = Num 10,
          v_deletedAt = Some 3\<rparr>"
  by code_simp

text \<open>
  Against C9 as stated: the list holds size 10 with the stored price and quantity, and
  holds it once more at price 175. The second entry is an updated variant, and its
  \<^verbatim>\<open>UPDATE\<close> clears the deletion timestamp of the row.
\<close>

theorem updateProduct_second_entry_undeletes_counterexample:
  "variants (store ex_world) ! 2
     = \<lparr>v_id = 3, v_productId = 7, v_price = Num 150, v_quantity = Num 1, v_size = Num 10,
        v_deletedAt = Some 3\<rparr>
   \<and> pt_variants ex_twice
       = Some [\<lparr>tv_size = Num 8, tv_price = Num 100, tv_quantity = Num 5\<rparr>,
               \<lparr>tv_size = Num 9, tv_price = Num 120, tv_quantity = Num 2\<rparr>,
               \<lparr>tv_size = Num 10, tv_price = Num 150, tv_quantity = Num 1\<rparr>,
               \<lparr>tv_size = Num 10, tv_price = Num 175, tv_quantity = Num 1\<rparr>]
   \<and> fst (updateProduct 5 ex_twice 7 ex_world) = Inr ''Product updated successfully''
   \<and> variants (store (snd (updateProduct 5 ex_twice 7 ex_world))) ! 2
       = \<lparr>v_id = 3, v_productId = 7, v_price = Num 175, v_quantity = Num 1, v_size = Num 10,
          v_deletedAt = None\<rparr>"
  by code_simp

end
